theory Spec2Isabelle
  imports Complex_Main "HOL-Library.AList" "HOL-Library.Sublist"
begin

section \<open>JavaScript numbers\<close>

text \<open>
  The program computes on JavaScript numbers. A number is modelled as an exact real
  or one of the three special values of IEEE arithmetic that the program can produce:
  the two infinities and NaN. Arithmetic on finite values is exact: rounding and
  overflow are not modelled. Zero is unsigned; a zero divisor is read as \<open>+0\<close>,
  which is the zero that \<open>x - x\<close> and \<open>0 * y\<close> (for \<open>y > 0\<close>) produce.
\<close>

datatype jsnum = Fin real | PInf | NInf | NaN

fun js_neg :: "jsnum \<Rightarrow> jsnum" where
  "js_neg (Fin a) = Fin (- a)"
| "js_neg PInf = NInf"
| "js_neg NInf = PInf"
| "js_neg NaN = NaN"

fun js_add :: "jsnum \<Rightarrow> jsnum \<Rightarrow> jsnum" where
  "js_add NaN y = NaN"
| "js_add x NaN = NaN"
| "js_add (Fin a) (Fin b) = Fin (a + b)"
| "js_add PInf NInf = NaN"
| "js_add NInf PInf = NaN"
| "js_add PInf y = PInf"
| "js_add NInf y = NInf"
| "js_add (Fin a) y = y"

definition js_sub :: "jsnum \<Rightarrow> jsnum \<Rightarrow> jsnum" where
  "js_sub x y = js_add x (js_neg y)"

fun js_mul :: "jsnum \<Rightarrow> jsnum \<Rightarrow> jsnum" where
  "js_mul NaN y = NaN"
| "js_mul x NaN = NaN"
| "js_mul (Fin a) (Fin b) = Fin (a * b)"
| "js_mul (Fin a) PInf = (if a = 0 then NaN else if 0 < a then PInf else NInf)"
| "js_mul (Fin a) NInf = (if a = 0 then NaN else if 0 < a then NInf else PInf)"
| "js_mul PInf (Fin b) = (if b = 0 then NaN else if 0 < b then PInf else NInf)"
| "js_mul NInf (Fin b) = (if b = 0 then NaN else if 0 < b then NInf else PInf)"
| "js_mul PInf PInf = PInf"
| "js_mul PInf NInf = NInf"
| "js_mul NInf PInf = NInf"
| "js_mul NInf NInf = PInf"

fun js_div :: "jsnum \<Rightarrow> jsnum \<Rightarrow> jsnum" where
  "js_div NaN y = NaN"
| "js_div x NaN = NaN"
| "js_div (Fin a) (Fin b) =
     (if b \<noteq> 0 then Fin (a / b)
      else if a = 0 then NaN else if 0 < a then PInf else NInf)"
| "js_div (Fin a) y = Fin 0"
| "js_div PInf (Fin b) = (if 0 \<le> b then PInf else NInf)"
| "js_div NInf (Fin b) = (if 0 \<le> b then NInf else PInf)"
| "js_div x y = NaN"

text \<open>\<open>Math.log\<close>, \<open>Math.sqrt\<close>, \<open>Math.exp\<close> and \<open>Math.sign\<close>.\<close>

fun js_log :: "jsnum \<Rightarrow> jsnum" where
  "js_log (Fin a) = (if 0 < a then Fin (ln a) else if a = 0 then NInf else NaN)"
| "js_log PInf = PInf"
| "js_log NInf = NaN"
| "js_log NaN = NaN"

fun js_sqrt :: "jsnum \<Rightarrow> jsnum" where
  "js_sqrt (Fin a) = (if 0 \<le> a then Fin (sqrt a) else NaN)"
| "js_sqrt PInf = PInf"
| "js_sqrt NInf = NaN"
| "js_sqrt NaN = NaN"

fun js_exp :: "jsnum \<Rightarrow> jsnum" where
  "js_exp (Fin a) = Fin (exp a)"
| "js_exp PInf = PInf"
| "js_exp NInf = Fin 0"
| "js_exp NaN = NaN"

fun js_sign :: "jsnum \<Rightarrow> jsnum" where
  "js_sign (Fin a) = Fin (sgn a)"
| "js_sign PInf = Fin 1"
| "js_sign NInf = Fin (- 1)"
| "js_sign NaN = NaN"

text \<open>The comparisons \<open><\<close>, \<open>>\<close>, \<open><=\<close>, \<open>>=\<close>: false as soon as one side is NaN.\<close>

fun js_lt :: "jsnum \<Rightarrow> jsnum \<Rightarrow> bool" where
  "js_lt NaN y = False"
| "js_lt x NaN = False"
| "js_lt (Fin a) (Fin b) = (a < b)"
| "js_lt NInf (Fin b) = True"
| "js_lt NInf PInf = True"
| "js_lt (Fin a) PInf = True"
| "js_lt x y = False"

definition js_gt :: "jsnum \<Rightarrow> jsnum \<Rightarrow> bool" where
  "js_gt x y = js_lt y x"

fun js_le :: "jsnum \<Rightarrow> jsnum \<Rightarrow> bool" where
  "js_le NaN y = False"
| "js_le x NaN = False"
| "js_le x y = (\<not> js_lt y x)"

definition js_ge :: "jsnum \<Rightarrow> jsnum \<Rightarrow> bool" where
  "js_ge x y = js_le y x"

text \<open>\<open>Math.max\<close> and \<open>Math.min\<close> of two arguments: NaN as soon as one argument is NaN.\<close>

fun js_max :: "jsnum \<Rightarrow> jsnum \<Rightarrow> jsnum" where
  "js_max NaN y = NaN"
| "js_max x NaN = NaN"
| "js_max x y = (if js_lt x y then y else x)"

fun js_min :: "jsnum \<Rightarrow> jsnum \<Rightarrow> jsnum" where
  "js_min NaN y = NaN"
| "js_min x NaN = NaN"
| "js_min x y = (if js_lt y x then y else x)"

section \<open>The probability model\<close>

datatype spread_type = Call | Put

text \<open>
  \<open>calculateProbOfProfit\<close> of the enhanced options route. The two \<open>if\<close> statements on
  the moneyness run one after the other, as in the source.
\<close>

definition calculateProbOfProfit ::
  "real \<Rightarrow> real \<Rightarrow> real \<Rightarrow> spread_type \<Rightarrow> real \<Rightarrow> real \<Rightarrow> jsnum" where
  "calculateProbOfProfit currentPrice shortStrike creditReceived ty impliedVol daysToExp =
     (let timeToExpiration = daysToExp / 365;
          breakeven = (if ty = Call then shortStrike + creditReceived
                       else shortStrike - creditReceived);
          d = js_div (js_log (js_div (Fin currentPrice) (Fin breakeven)))
                (js_mul (Fin impliedVol) (js_sqrt (Fin timeToExpiration)));
          cdf = js_mul (Fin 0.5)
                  (js_add (Fin 1)
                    (js_mul (js_sign d)
                      (js_sqrt (js_sub (Fin 1)
                        (js_exp (js_div (js_mul (js_mul (Fin (- 2)) d) d) (Fin pi)))))));
          probability0 = (if ty = Call then js_mul (js_sub (Fin 1) cdf) (Fin 100)
                          else js_mul cdf (Fin 100));
          probability1 = js_add probability0 (Fin (max 0 ((10 - daysToExp) * 2)));
          moneyness = js_div (Fin currentPrice) (Fin shortStrike);
          probability2 = (if ty = Call \<and> js_lt moneyness (Fin 0.95)
                          then js_add probability1 (Fin 10) else probability1);
          probability3 = (if ty = Put \<and> js_gt moneyness (Fin 1.05)
                          then js_add probability2 (Fin 10) else probability2)
      in js_min (js_max probability3 (Fin 20)) (Fin 85))"

text \<open>
  The specification's formula, sentence by sentence, on the same numbers: the
  breakeven, the standardized distance \<open>d\<close>, the approximation of the cumulative
  normal probability with \<open>-2d\<^sup>2/\<pi>\<close>, the base probability by side, the time-decay
  bonus and the flat bonus for a spread out of the money give \<open>spec_raw\<close>; the result
  is then clamped to \<open>[20, 85]\<close>. \<open>spec_clamp\<close> has all its values in that interval:
  what lies above 85 goes to 85, what lies between 20 and 85 stays, and everything
  else goes to 20.
\<close>

definition spec_clamp :: "jsnum \<Rightarrow> jsnum" where
  "spec_clamp p =
     (if js_gt p (Fin 85) then Fin 85 else if js_ge p (Fin 20) then p else Fin 20)"

definition spec_raw ::
  "real \<Rightarrow> real \<Rightarrow> real \<Rightarrow> spread_type \<Rightarrow> real \<Rightarrow> real \<Rightarrow> jsnum" where
  "spec_raw currentPrice shortStrike creditReceived ty impliedVol daysToExpiration =
     (let breakeven = (case ty of Call \<Rightarrow> shortStrike + creditReceived
                                | Put \<Rightarrow> shortStrike - creditReceived);
          d = js_div (js_log (js_div (Fin currentPrice) (Fin breakeven)))
                (js_mul (Fin impliedVol) (js_sqrt (Fin (daysToExpiration / 365))));
          cdf = js_mul (Fin 0.5)
                  (js_add (Fin 1)
                    (js_mul (js_sign d)
                      (js_sqrt (js_sub (Fin 1)
                        (js_exp (js_div (js_mul (Fin (- 2)) (js_mul d d)) (Fin pi)))))));
          base = (case ty of Call \<Rightarrow> js_mul (js_sub (Fin 1) cdf) (Fin 100)
                           | Put \<Rightarrow> js_mul cdf (Fin 100));
          decay = max 0 ((10 - daysToExpiration) * 2);
          ratio = js_div (Fin currentPrice) (Fin shortStrike);
          bonus = (if (ty = Call \<and> js_lt ratio (Fin 0.95)) \<or> (ty = Put \<and> js_gt ratio (Fin 1.05))
                   then 10 else 0)
      in js_add (js_add base (Fin decay)) (Fin bonus))"

definition spec_probOfProfit ::
  "real \<Rightarrow> real \<Rightarrow> real \<Rightarrow> spread_type \<Rightarrow> real \<Rightarrow> real \<Rightarrow> jsnum" where
  "spec_probOfProfit currentPrice shortStrike creditReceived ty impliedVol daysToExpiration =
     spec_clamp (spec_raw currentPrice shortStrike creditReceived ty impliedVol daysToExpiration)"

text \<open>
  \<open>calculateProbOfProfit\<close> of the basic options route (\<open>route.ts\<close>): 65 or 35,
  by the side of the breakeven the current price lies on.
\<close>

definition calculateProbOfProfit_route :: "real \<Rightarrow> real \<Rightarrow> real \<Rightarrow> spread_type \<Rightarrow> jsnum" where
  "calculateProbOfProfit_route currentPrice shortStrike creditReceived ty =
     (if ty = Call then
        (let breakeven = shortStrike + creditReceived
         in if currentPrice < breakeven then Fin 65 else Fin 35)
      else
        (let breakeven = shortStrike - creditReceived
         in if currentPrice > breakeven then Fin 65 else Fin 35))"

section \<open>Contracts and recommendations\<close>

text \<open>
  The fields of a contract are finite numbers; \<open>expiration\<close> is a Unix time in seconds,
  a whole number within the range of \<open>Date\<close>.
\<close>

record OptionContract =
  contractSymbol :: string
  strike :: real
  expiration :: int
  bid :: real
  ask :: real
  lastPrice :: real
  volume :: real
  openInterest :: real
  impliedVolatility :: real
  inTheMoney :: bool

text \<open>
  The source stores the expiration of a recommendation as the date part of
  \<open>new Date(ms).toISOString()\<close>; the model keeps the instant \<open>ms\<close> that string is printed
  from.
\<close>

datatype iso_date = DateOfMs int

record CreditSpreadRecommendation =
  spreadType :: spread_type
  shortStrike :: real
  longStrike :: real
  expirationDate :: iso_date
  creditReceived :: real
  maxProfit :: real
  maxLoss :: real
  breakeven :: real
  probOfProfit :: jsnum
  riskRewardRatio :: jsnum
  daysToExpiration :: int

text \<open>
  \<open>getDaysToExpiration\<close>: every call reads the clock (\<open>new Date().getTime()\<close>, in
  milliseconds); \<open>now\<close> is the reading the call takes.
\<close>

definition getDaysToExpiration :: "int \<Rightarrow> int \<Rightarrow> int" where
  "getDaysToExpiration now expirationTimestamp =
     (let expiration = expirationTimestamp * 1000
      in \<lceil>(of_int (expiration - now) :: real) / (1000 * 60 * 60 * 24)\<rceil>)"

text \<open>
  A call of \<open>findCreditSpreads\<close> calls \<open>getDaysToExpiration\<close> once for every contract of
  the chain, in the filter, and at most once in every pass through the body of either
  loop. \<open>clock (AtFilter j)\<close> is the reading taken for the contract at position \<open>j\<close> of the
  chain, \<open>clock (AtCall i)\<close> and \<open>clock (AtPut i)\<close> are the readings taken in pass \<open>i\<close> of
  the loop over the calls and of the loop over the puts.
\<close>

datatype reading = AtFilter nat | AtCall nat | AtPut nat

section \<open>Sorting\<close>

text \<open>
  \<open>Array.prototype.sort\<close> with a comparator is a stable sort; a comparator value that
  is NaN counts as \<open>0\<close>. The model is the stable insertion sort: an element moves behind
  another one only when the comparator is positive on the pair. \<open>slice(0, n)\<close> is \<open>take n\<close>.
\<close>

fun insertBy :: "('a \<Rightarrow> 'a \<Rightarrow> jsnum) \<Rightarrow> 'a \<Rightarrow> 'a list \<Rightarrow> 'a list" where
  "insertBy cmp x [] = [x]"
| "insertBy cmp x (y # ys) =
     (if js_gt (cmp x y) (Fin 0) then y # insertBy cmp x ys else x # y # ys)"

definition js_sort :: "('a \<Rightarrow> 'a \<Rightarrow> jsnum) \<Rightarrow> 'a list \<Rightarrow> 'a list" where
  "js_sort cmp xs = foldr (insertBy cmp) xs []"

definition byRiskReward :: "CreditSpreadRecommendation \<Rightarrow> CreditSpreadRecommendation \<Rightarrow> jsnum" where
  "byRiskReward a b = js_sub (riskRewardRatio b) (riskRewardRatio a)"

section \<open>The spread pairing engine and the ranker\<close>

definition inWindow :: "int \<Rightarrow> real \<Rightarrow> OptionContract \<Rightarrow> bool" where
  "inWindow now targetDTE option =
     (let dte = getDaysToExpiration now (expiration option)
      in of_int dte \<ge> targetDTE - 2 \<and> of_int dte \<le> targetDTE + 2)"

definition callSide :: "real \<Rightarrow> OptionContract \<Rightarrow> bool" where
  "callSide currentPrice option = (\<not> inTheMoney option \<or> strike option > currentPrice)"

definition putSide :: "real \<Rightarrow> OptionContract \<Rightarrow> bool" where
  "putSide currentPrice option = (\<not> inTheMoney option \<or> strike option < currentPrice)"

text \<open>
  The three filtered lists of the source, under the names it gives them. \<open>windowFilter\<close>
  is the first \<open>filter\<close>, whose callback reads the clock for each contract; \<open>j\<close> is the
  position in the chain of the head of the list.
\<close>

fun windowFilter ::
  "(reading \<Rightarrow> int) \<Rightarrow> nat \<Rightarrow> real \<Rightarrow> OptionContract list \<Rightarrow> OptionContract list" where
  "windowFilter clock j targetDTE [] = []"
| "windowFilter clock j targetDTE (option # rest) =
     (if inWindow (clock (AtFilter j)) targetDTE option then [option] else [])
     @ windowFilter clock (Suc j) targetDTE rest"

definition targetOptions ::
  "(reading \<Rightarrow> int) \<Rightarrow> real \<Rightarrow> OptionContract list \<Rightarrow> OptionContract list" where
  "targetOptions clock targetDTE options = windowFilter clock 0 targetDTE options"

definition callOptions ::
  "(reading \<Rightarrow> int) \<Rightarrow> real \<Rightarrow> real \<Rightarrow> OptionContract list \<Rightarrow> OptionContract list" where
  "callOptions clock targetDTE currentPrice options =
     filter (callSide currentPrice) (targetOptions clock targetDTE options)"

definition putOptions ::
  "(reading \<Rightarrow> int) \<Rightarrow> real \<Rightarrow> real \<Rightarrow> OptionContract list \<Rightarrow> OptionContract list" where
  "putOptions clock targetDTE currentPrice options =
     filter (putSide currentPrice) (targetOptions clock targetDTE options)"

text \<open>
  The two \<open>for\<close> loops of the enhanced route: \<open>i\<close> runs over the positions that have a
  successor, the contract at \<open>i\<close> is the short leg and the one at \<open>i + 1\<close> the long leg.
  Each function returns what its loop pushes, in order, from pass \<open>i\<close> on. The days a
  pass reads are the days it tests and the days it stores.
\<close>

fun callLoop ::
  "(reading \<Rightarrow> int) \<Rightarrow> nat \<Rightarrow> real \<Rightarrow> OptionContract list \<Rightarrow> CreditSpreadRecommendation list" where
  "callLoop clock i currentPrice (shortOption # longOption # rest) =
     (if strike longOption > strike shortOption then
        (let creditReceived = bid shortOption - ask longOption;
             maxLoss = (strike longOption - strike shortOption) - creditReceived;
             maxProfit = creditReceived;
             daysToExp = getDaysToExpiration (clock (AtCall i)) (expiration shortOption);
             avgIV = (impliedVolatility shortOption + impliedVolatility longOption) / 2
         in if creditReceived > 0.15 \<and> js_gt (js_div (Fin maxProfit) (Fin maxLoss)) (Fin 0.25)
               \<and> daysToExp \<ge> 5 \<and> daysToExp \<le> 10
            then
              (let probOfProfit = calculateProbOfProfit currentPrice (strike shortOption)
                     creditReceived Call avgIV (of_int daysToExp)
               in [\<lparr> spreadType = Call,
                     shortStrike = strike shortOption,
                     longStrike = strike longOption,
                     expirationDate = DateOfMs (expiration shortOption * 1000),
                     creditReceived = creditReceived,
                     maxProfit = maxProfit,
                     maxLoss = maxLoss,
                     breakeven = strike shortOption + creditReceived,
                     probOfProfit = probOfProfit,
                     riskRewardRatio = js_div (Fin maxProfit) (Fin maxLoss),
                     daysToExpiration = daysToExp \<rparr>])
            else [])
      else [])
     @ callLoop clock (Suc i) currentPrice (longOption # rest)"
| "callLoop clock i currentPrice rest = []"

fun putLoop ::
  "(reading \<Rightarrow> int) \<Rightarrow> nat \<Rightarrow> real \<Rightarrow> OptionContract list \<Rightarrow> CreditSpreadRecommendation list" where
  "putLoop clock i currentPrice (shortOption # longOption # rest) =
     (if strike longOption < strike shortOption then
        (let creditReceived = bid shortOption - ask longOption;
             maxLoss = (strike shortOption - strike longOption) - creditReceived;
             maxProfit = creditReceived;
             daysToExp = getDaysToExpiration (clock (AtPut i)) (expiration shortOption);
             avgIV = (impliedVolatility shortOption + impliedVolatility longOption) / 2
         in if creditReceived > 0.15 \<and> js_gt (js_div (Fin maxProfit) (Fin maxLoss)) (Fin 0.25)
               \<and> daysToExp \<ge> 5 \<and> daysToExp \<le> 10
            then
              (let probOfProfit = calculateProbOfProfit currentPrice (strike shortOption)
                     creditReceived Put avgIV (of_int daysToExp)
               in [\<lparr> spreadType = Put,
                     shortStrike = strike shortOption,
                     longStrike = strike longOption,
                     expirationDate = DateOfMs (expiration shortOption * 1000),
                     creditReceived = creditReceived,
                     maxProfit = maxProfit,
                     maxLoss = maxLoss,
                     breakeven = strike shortOption - creditReceived,
                     probOfProfit = probOfProfit,
                     riskRewardRatio = js_div (Fin maxProfit) (Fin maxLoss),
                     daysToExpiration = daysToExp \<rparr>])
            else [])
      else [])
     @ putLoop clock (Suc i) currentPrice (longOption # rest)"
| "putLoop clock i currentPrice rest = []"

text \<open>The candidates in the order the two loops push them: the pairing stage.\<close>

definition pairingStage ::
  "(reading \<Rightarrow> int) \<Rightarrow> OptionContract list \<Rightarrow> real \<Rightarrow> real \<Rightarrow> CreditSpreadRecommendation list" where
  "pairingStage clock options currentPrice targetDTE =
     callLoop clock 0 currentPrice (callOptions clock targetDTE currentPrice options)
     @ putLoop clock 0 currentPrice (putOptions clock targetDTE currentPrice options)"

definition findCreditSpreads ::
  "(reading \<Rightarrow> int) \<Rightarrow> OptionContract list \<Rightarrow> real \<Rightarrow> real \<Rightarrow> CreditSpreadRecommendation list" where
  "findCreditSpreads clock options currentPrice targetDTE =
     take 10 (js_sort byRiskReward (pairingStage clock options currentPrice targetDTE))"

text \<open>
  \<open>findCreditSpreads\<close> of the basic route (\<open>route.ts\<close>): the same scan with the
  thresholds \<open>0.10\<close> and \<open>0.2\<close>, no test on the days to expiration when a pair is
  accepted, and the two-valued probability. The days a recommendation stores come from
  the call of \<open>getDaysToExpiration\<close> in the object that is pushed, which reads the clock
  after the filter has read it.
\<close>

fun callLoop_route ::
  "(reading \<Rightarrow> int) \<Rightarrow> nat \<Rightarrow> real \<Rightarrow> OptionContract list \<Rightarrow> CreditSpreadRecommendation list" where
  "callLoop_route clock i currentPrice (shortOption # longOption # rest) =
     (if strike longOption > strike shortOption then
        (let creditReceived = bid shortOption - ask longOption;
             maxLoss = (strike longOption - strike shortOption) - creditReceived;
             maxProfit = creditReceived
         in if creditReceived > 0.10 \<and> js_gt (js_div (Fin maxProfit) (Fin maxLoss)) (Fin 0.2)
            then [\<lparr> spreadType = Call,
                    shortStrike = strike shortOption,
                    longStrike = strike longOption,
                    expirationDate = DateOfMs (expiration shortOption * 1000),
                    creditReceived = creditReceived,
                    maxProfit = maxProfit,
                    maxLoss = maxLoss,
                    breakeven = strike shortOption + creditReceived,
                    probOfProfit = calculateProbOfProfit_route currentPrice (strike shortOption)
                      creditReceived Call,
                    riskRewardRatio = js_div (Fin maxProfit) (Fin maxLoss),
                    daysToExpiration =
                      getDaysToExpiration (clock (AtCall i)) (expiration shortOption) \<rparr>]
            else [])
      else [])
     @ callLoop_route clock (Suc i) currentPrice (longOption # rest)"
| "callLoop_route clock i currentPrice rest = []"

fun putLoop_route ::
  "(reading \<Rightarrow> int) \<Rightarrow> nat \<Rightarrow> real \<Rightarrow> OptionContract list \<Rightarrow> CreditSpreadRecommendation list" where
  "putLoop_route clock i currentPrice (shortOption # longOption # rest) =
     (if strike longOption < strike shortOption then
        (let creditReceived = bid shortOption - ask longOption;
             maxLoss = (strike shortOption - strike longOption) - creditReceived;
             maxProfit = creditReceived
         in if creditReceived > 0.10 \<and> js_gt (js_div (Fin maxProfit) (Fin maxLoss)) (Fin 0.2)
            then [\<lparr> spreadType = Put,
                    shortStrike = strike shortOption,
                    longStrike = strike longOption,
                    expirationDate = DateOfMs (expiration shortOption * 1000),
                    creditReceived = creditReceived,
                    maxProfit = maxProfit,
                    maxLoss = maxLoss,
                    breakeven = strike shortOption - creditReceived,
                    probOfProfit = calculateProbOfProfit_route currentPrice (strike shortOption)
                      creditReceived Put,
                    riskRewardRatio = js_div (Fin maxProfit) (Fin maxLoss),
                    daysToExpiration =
                      getDaysToExpiration (clock (AtPut i)) (expiration shortOption) \<rparr>]
            else [])
      else [])
     @ putLoop_route clock (Suc i) currentPrice (longOption # rest)"
| "putLoop_route clock i currentPrice rest = []"

definition pairingStage_route ::
  "(reading \<Rightarrow> int) \<Rightarrow> OptionContract list \<Rightarrow> real \<Rightarrow> real \<Rightarrow> CreditSpreadRecommendation list" where
  "pairingStage_route clock options currentPrice targetDTE =
     callLoop_route clock 0 currentPrice (callOptions clock targetDTE currentPrice options)
     @ putLoop_route clock 0 currentPrice (putOptions clock targetDTE currentPrice options)"

definition findCreditSpreads_route ::
  "(reading \<Rightarrow> int) \<Rightarrow> OptionContract list \<Rightarrow> real \<Rightarrow> real \<Rightarrow> CreditSpreadRecommendation list" where
  "findCreditSpreads_route clock options currentPrice targetDTE =
     take 10 (js_sort byRiskReward (pairingStage_route clock options currentPrice targetDTE))"

text \<open>A contract with the fields the engine reads; the others are fixed.\<close>

definition contract :: "real \<Rightarrow> real \<Rightarrow> real \<Rightarrow> real \<Rightarrow> bool \<Rightarrow> int \<Rightarrow> OptionContract" where
  "contract k b a iv itm e =
     \<lparr> contractSymbol = ''TSLA'', strike = k, expiration = e, bid = b, ask = a,
       lastPrice = 0, volume = 0, openInterest = 0, impliedVolatility = iv,
       inTheMoney = itm \<rparr>"

subsection \<open>Predicates the statements below are written with\<close>

text \<open>
  \<open>legsAt rd xs i r\<close>: the recommendation \<open>r\<close> is made of the contracts at the
  neighbouring positions \<open>i\<close> (short leg) and \<open>i + 1\<close> (long leg) of the list \<open>xs\<close>, and
  its days are those of the short leg at the reading \<open>rd i\<close>.
\<close>

definition legsAt ::
  "(nat \<Rightarrow> int) \<Rightarrow> OptionContract list \<Rightarrow> nat \<Rightarrow> CreditSpreadRecommendation \<Rightarrow> bool" where
  "legsAt rd xs i r =
     (Suc i < length xs \<and>
      shortStrike r = strike (xs ! i) \<and> longStrike r = strike (xs ! Suc i) \<and>
      creditReceived r = bid (xs ! i) - ask (xs ! Suc i) \<and>
      daysToExpiration r = getDaysToExpiration (rd i) (expiration (xs ! i)))"

text \<open>The JavaScript comparison \<open>>=\<close> on the risk/reward ratios of two recommendations.\<close>

definition byRatioDesc :: "CreditSpreadRecommendation \<Rightarrow> CreditSpreadRecommendation \<Rightarrow> bool" where
  "byRatioDesc a b = js_ge (riskRewardRatio a) (riskRewardRatio b)"

text \<open>
  \<open>rankedFrom cands rs\<close>: \<open>rs\<close> is in descending order of the ratio; the entries of \<open>rs\<close>
  with one ratio are the first entries of \<open>cands\<close> with that ratio, in the order of
  \<open>cands\<close>; \<open>rs\<close> has ten entries, or all of \<open>cands\<close> when there are fewer.
\<close>

definition rankedFrom :: "CreditSpreadRecommendation list \<Rightarrow> CreditSpreadRecommendation list \<Rightarrow> bool" where
  "rankedFrom cands rs =
     (sorted_wrt byRatioDesc rs \<and>
      (\<forall>k. \<exists>zs. filter (\<lambda>r. riskRewardRatio r = k) cands =
                   filter (\<lambda>r. riskRewardRatio r = k) rs @ zs) \<and>
      length rs = min 10 (length cands) \<and>
      set rs \<subseteq> set cands)"

text \<open>
  The chain of the specification's end-to-end scenario: two out-of-the-money calls
  expiring seven days after the clock reading \<open>0\<close>, the price at 255.
\<close>

definition exampleChain :: "OptionContract list" where
  "exampleChain =
     [contract 260 1.50 1.60 0.3 False 604800, contract 265 0.30 0.40 0.3 False 604800]"

text \<open>
  Further chains, all expiring seven days after the clock reading \<open>0\<close>: a pair whose
  ratio lies between the two routes' thresholds; a pair whose credit equals the
  distance of the strikes; three calls listed out of strike order; and a pair with no
  implied volatility whose short leg carries a stale moneyness flag.
\<close>

definition lowRatioChain :: "OptionContract list" where
  "lowRatioChain =
     [contract 260 1.30 1.40 0.3 False 604800, contract 265 0.30 0.40 0.3 False 604800]"

definition zeroLossChain :: "OptionContract list" where
  "zeroLossChain =
     [contract 260 5 5.20 0.3 False 604800, contract 265 0 0 0.3 False 604800]"

definition unsortedChain :: "OptionContract list" where
  "unsortedChain =
     [contract 260 3.00 3.20 0.3 False 604800, contract 270 0.30 0.40 0.3 False 604800,
      contract 265 0.90 1.00 0.3 False 604800]"

definition staleFlagChain :: "OptionContract list" where
  "staleFlagChain =
     [contract 260 1.50 1.60 0 False 604800, contract 265 0 0 0 False 604800]"

text \<open>
  A clock that advances by a millisecond from one reading to the next: the filter
  starts at \<open>0\<close>, the loop over the calls a second later, the loop over the puts another
  second later.
\<close>

fun tickingClock :: "reading \<Rightarrow> int" where
  "tickingClock (AtFilter j) = int j"
| "tickingClock (AtCall i) = 1000 + int i"
| "tickingClock (AtPut i) = 2000 + int i"

text \<open>
  Two calls that expire four days and one second after the clock reading \<open>0\<close>, and
  twelve calls, five apart, whose bids are 2.00 and 2.50 in turn, expiring after seven
  days.
\<close>

definition driftChain :: "OptionContract list" where
  "driftChain =
     [contract 260 1.30 1.40 0.3 False 345601, contract 265 0.30 0.40 0.3 False 345601]"

definition tieChain :: "OptionContract list" where
  "tieChain =
     [contract 260 2.00 2.10 0.3 False 604800, contract 265 2.50 0.50 0.3 False 604800,
      contract 270 2.00 0.50 0.3 False 604800, contract 275 2.50 0.50 0.3 False 604800,
      contract 280 2.00 0.50 0.3 False 604800, contract 285 2.50 0.50 0.3 False 604800,
      contract 290 2.00 0.50 0.3 False 604800, contract 295 2.50 0.50 0.3 False 604800,
      contract 300 2.00 0.50 0.3 False 604800, contract 305 2.50 0.50 0.3 False 604800,
      contract 310 2.00 0.50 0.3 False 604800, contract 315 2.50 0.50 0.3 False 604800]"

text \<open>
  The pairs of strikes the specification's step 3 considers: the strikes sorted
  ascending, each one with its successor.
\<close>

definition sortedNeighbours :: "real list \<Rightarrow> (real \<times> real) list" where
  "sortedNeighbours ks = (let s = sort ks in zip s (tl s))"

section \<open>The TTL cache\<close>

text \<open>
  \<open>SimpleCache\<close> wraps a \<open>Map\<close> from keys to items. The map is a list of pairs with
  distinct keys in the order of insertion: writing an existing key replaces its item in
  place, writing a new key appends. Every method takes the reading of the clock
  (\<open>Date.now()\<close>, in milliseconds) that it uses; \<open>ttl\<close> is stored in milliseconds.
\<close>

record 'v cache_item =
  data :: 'v
  timestamp :: int
  ttl :: real

type_synonym 'v SimpleCache = "(string \<times> 'v cache_item) list"

definition expired :: "int \<Rightarrow> 'v cache_item \<Rightarrow> bool" where
  "expired now item = (of_int (now - timestamp item) > ttl item)"

definition SimpleCache_set :: "int \<Rightarrow> string \<Rightarrow> 'v \<Rightarrow> real \<Rightarrow> 'v SimpleCache \<Rightarrow> 'v SimpleCache" where
  "SimpleCache_set now key d ttlSeconds cache =
     AList.update key \<lparr> data = d, timestamp = now, ttl = ttlSeconds * 1000 \<rparr> cache"

definition SimpleCache_get :: "int \<Rightarrow> string \<Rightarrow> 'v SimpleCache \<Rightarrow> 'v option \<times> 'v SimpleCache" where
  "SimpleCache_get now key cache =
     (case map_of cache key of
        None \<Rightarrow> (None, cache)
      | Some item \<Rightarrow>
          if expired now item then (None, AList.delete key cache)
          else (Some (data item), cache))"

definition SimpleCache_clear :: "'v SimpleCache \<Rightarrow> 'v SimpleCache" where
  "SimpleCache_clear cache = []"

definition SimpleCache_size :: "'v SimpleCache \<Rightarrow> nat" where
  "SimpleCache_size cache = length cache"

text \<open>
  \<open>cleanup\<close> walks the entries the map had when it was called and deletes the expired
  ones from the map. (The second copy of the class in the repository walks the live map
  instead; deleting the entry under the iterator does not disturb a \<open>Map\<close> iteration,
  so both copies compute the same map.)
\<close>

fun cleanupLoop :: "int \<Rightarrow> (string \<times> 'v cache_item) list \<Rightarrow> 'v SimpleCache \<Rightarrow> 'v SimpleCache" where
  "cleanupLoop now [] cache = cache"
| "cleanupLoop now ((key, item) # entries) cache =
     cleanupLoop now entries (if expired now item then AList.delete key cache else cache)"

definition SimpleCache_cleanup :: "int \<Rightarrow> 'v SimpleCache \<Rightarrow> 'v SimpleCache" where
  "SimpleCache_cleanup now cache = cleanupLoop now cache cache"

text \<open>
  A call of a method at a clock reading, and a sequence of such calls. \<open>between k t t'\<close>
  holds of a sequence whose clock readings ascend from \<open>t\<close> to \<open>t'\<close> and that does not
  write the key \<open>k\<close>: no \<open>set\<close> of \<open>k\<close>, and no \<open>clear\<close>, which empties the map.
\<close>

datatype 'v cache_call =
  CallSet string 'v real | CallGet string | CallClear | CallSize | CallCleanup

fun apply_call :: "int \<Rightarrow> 'v cache_call \<Rightarrow> 'v SimpleCache \<Rightarrow> 'v SimpleCache" where
  "apply_call now (CallSet key d ttlSeconds) cache = SimpleCache_set now key d ttlSeconds cache"
| "apply_call now (CallGet key) cache = snd (SimpleCache_get now key cache)"
| "apply_call now CallCleanup cache = SimpleCache_cleanup now cache"
| "apply_call now CallSize cache = cache"
| "apply_call now CallClear cache = SimpleCache_clear cache"

fun cache_calls :: "(int \<times> 'v cache_call) list \<Rightarrow> 'v SimpleCache \<Rightarrow> 'v SimpleCache" where
  "cache_calls [] cache = cache"
| "cache_calls ((now, call) # rest) cache = cache_calls rest (apply_call now call cache)"

fun writesKey :: "string \<Rightarrow> 'v cache_call \<Rightarrow> bool" where
  "writesKey k (CallSet key d ttlSeconds) = (key = k)"
| "writesKey k CallClear = True"
| "writesKey k call = False"

fun between :: "string \<Rightarrow> int \<Rightarrow> int \<Rightarrow> (int \<times> 'v cache_call) list \<Rightarrow> bool" where
  "between k t t' [] = (t \<le> t')"
| "between k t t' ((now, call) # rest) = (t \<le> now \<and> \<not> writesKey k call \<and> between k now t' rest)"

text \<open>
  The state of the key \<open>k\<close> between a \<open>set\<close> and a later reading \<open>t'\<close>: the item is
  still there, or it is gone and has expired by \<open>t'\<close>.
\<close>

definition holds :: "string \<Rightarrow> 'v cache_item \<Rightarrow> int \<Rightarrow> 'v SimpleCache \<Rightarrow> bool" where
  "holds k item t' cache =
     (distinct (map fst cache) \<and>
      (map_of cache k = Some item \<or> (map_of cache k = None \<and> expired t' item)))"

text \<open>
  Calls that leave the key of the options handlers alone: a \<open>get\<close> of it, a sweep, a
  \<open>set\<close> of another key and a \<open>size\<close>.
\<close>

definition quietCalls :: "(int \<times> nat cache_call) list" where
  "quietCalls =
     [(2000, CallGet ''tsla-options-data''), (3000, CallCleanup),
      (4000, CallSet ''market-news-data'' 5 60), (5000, CallSize)]"

section \<open>The broadcast hub\<close>

text \<open>An exception is a value: what a \<open>try\<close> block throws is the \<open>Inl\<close> of a sum.\<close>

datatype js_error = TypeError | Error string

text \<open>
  \<open>WebSocketManager\<close>. A callback is known by its identity; the \<open>Set\<close> of the callbacks
  of a topic is a list without repetition, in the order of insertion. A callback is an
  observer: called with a value it returns or throws, and it does not call the manager
  back while a broadcast runs. The simulated socket \<open>ws\<close> is \<open>null\<close> or the object
  whose \<open>close\<close> clears the three intervals it remembers; the model keeps their ids.

  Besides the fields of the class the state holds what the manager does to the world
  around it: the intervals of the runtime that are running (id, topic polled, period in
  milliseconds) with the next id \<open>setInterval\<close> hands out, the requests the interval
  callbacks have issued, the calls of callbacks made, and the number of errors
  \<open>broadcast\<close> has logged. The global \<open>WebSocket\<close> exists (the module runs in a
  browser), so \<open>simulateWebSocket\<close> throws nothing and the \<open>catch\<close> of \<open>connect\<close>, with
  \<open>handleConnectionError\<close>, is never entered.
\<close>

datatype DataType = Price | Options | News

type_synonym callback = nat

record 'd WebSocketManager =
  ws :: "nat list option"
  reconnectAttempts :: nat
  subscribers :: "DataType \<Rightarrow> callback list"
  isConnecting :: bool
  intervals :: "(nat \<times> DataType \<times> nat) list"
  nextInterval :: nat
  fetches :: "DataType list"
  delivered :: "(callback \<times> 'd) list"
  errorsLogged :: nat

definition newManager :: "'d WebSocketManager" where
  "newManager =
     \<lparr> ws = None, reconnectAttempts = 0, subscribers = (\<lambda>type. []), isConnecting = False,
       intervals = [], nextInterval = 0, fetches = [], delivered = [], errorsLogged = 0 \<rparr>"

definition setInterval :: "DataType \<Rightarrow> nat \<Rightarrow> 'd WebSocketManager \<Rightarrow> 'd WebSocketManager" where
  "setInterval type period m =
     m\<lparr> intervals := intervals m @ [(nextInterval m, type, period)],
        nextInterval := nextInterval m + 1 \<rparr>"

definition clearInterval :: "nat \<Rightarrow> 'd WebSocketManager \<Rightarrow> 'd WebSocketManager" where
  "clearInterval i m = m\<lparr> intervals := filter (\<lambda>entry. fst entry \<noteq> i) (intervals m) \<rparr>"

definition simulateWebSocket :: "'d WebSocketManager \<Rightarrow> 'd WebSocketManager" where
  "simulateWebSocket m =
     (let priceInterval = nextInterval m;
          m1 = setInterval Price 5000 m;
          optionsInterval = nextInterval m1;
          m2 = setInterval Options 30000 m1;
          newsInterval = nextInterval m2;
          m3 = setInterval News 120000 m2
      in m3\<lparr> ws := Some [priceInterval, optionsInterval, newsInterval],
             isConnecting := False, reconnectAttempts := 0 \<rparr>)"

definition connect :: "'d WebSocketManager \<Rightarrow> 'd WebSocketManager" where
  "connect m =
     (if isConnecting m \<or> ws m \<noteq> None then m
      else simulateWebSocket (m\<lparr> isConnecting := True \<rparr>))"


definition getTotalSubscribers :: "'d WebSocketManager \<Rightarrow> nat" where
  "getTotalSubscribers m =
     fold (\<lambda>s total. total + length s) (map (subscribers m) [Price, Options, News]) 0"

definition setAdd :: "'a \<Rightarrow> 'a list \<Rightarrow> 'a list" where
  "setAdd x xs = (if x \<in> set xs then xs else xs @ [x])"


text \<open>
  \<open>subscribe\<close> returns the function that unsubscribes the callback; \<open>unsubscribe\<close> is
  the body of that function.
\<close>

definition subscribe :: "DataType \<Rightarrow> callback \<Rightarrow> 'd WebSocketManager \<Rightarrow> 'd WebSocketManager" where
  "subscribe type cb m =
     (let m1 = m\<lparr> subscribers := (subscribers m)(type := setAdd cb (subscribers m type)) \<rparr>
      in if getTotalSubscribers m1 = 1 then connect m1 else m1)"


text \<open>
  \<open>broadcast\<close>: \<open>run cb d\<close> is what the call \<open>callback(data)\<close> does, return or throw;
  the \<open>catch\<close> logs the error and the loop goes on.
\<close>

fun broadcastLoop ::
  "(callback \<Rightarrow> 'd \<Rightarrow> js_error + unit) \<Rightarrow> 'd \<Rightarrow> callback list \<Rightarrow> 'd WebSocketManager
     \<Rightarrow> 'd WebSocketManager" where
  "broadcastLoop run d [] m = m"
| "broadcastLoop run d (cb # rest) m =
     broadcastLoop run d rest
       (let m1 = m\<lparr> delivered := delivered m @ [(cb, d)] \<rparr>
        in case run cb d of
             Inl error \<Rightarrow> m1\<lparr> errorsLogged := errorsLogged m1 + 1 \<rparr>
           | Inr u \<Rightarrow> m1)"

definition broadcast ::
  "(callback \<Rightarrow> 'd \<Rightarrow> js_error + unit) \<Rightarrow> DataType \<Rightarrow> 'd \<Rightarrow> 'd WebSocketManager
     \<Rightarrow> 'd WebSocketManager" where
  "broadcast run type d m = broadcastLoop run d (subscribers m type) m"







text \<open>
  A manager with one subscriber to the price topic, a run in which nobody subscribes to
  the options topic, and two behaviours of callbacks.
\<close>

definition firstSubscriber :: "nat WebSocketManager" where
  "firstSubscriber = subscribe Price 1 newManager"



definition secondThrows :: "callback \<Rightarrow> nat \<Rightarrow> js_error + unit" where
  "secondThrows cb d = (if cb = 2 then Inl TypeError else Inr ())"



section \<open>Quote lookup\<close>

text \<open>
  A JavaScript value, as far as its truthiness goes: every object and array is truthy.
\<close>

datatype jsval = JUndefined | JNull | JBool bool | JNumber jsnum | JString string | JObject

fun truthy :: "jsval \<Rightarrow> bool" where
  "truthy JUndefined = False"
| "truthy JNull = False"
| "truthy (JBool b) = b"
| "truthy (JNumber n) = (n \<noteq> NaN \<and> n \<noteq> Fin 0)"
| "truthy (JString s) = (s \<noteq> [])"
| "truthy JObject = True"

text \<open>
  What the three providers hold for one call of \<open>getCurrentPrice\<close>. For each provider:
  \<open>Inl\<close> when its \<open>try\<close> block throws (the request or the parsing of the response
  fails, or a property is read from \<open>null\<close>), otherwise the value its \<open>if\<close> tests
  (\<open>undefined\<close> when the optional chain breaks off). The two keys are the values the
  environment configures, \<open>'demo'\<close> when it configures none.
\<close>

datatype provider = Yahoo | AlphaVantage | FMP

record quote_sources =
  yahooQuote :: "js_error + jsval"
  alphaVantageQuote :: "js_error + jsval"
  fmpQuote :: "js_error + jsval"
  ALPHA_VANTAGE_KEY :: string
  FMP_KEY :: string

text \<open>
  \<open>getCurrentPrice\<close>, with the built-in \<open>parseFloat\<close> as a parameter. Every \<open>catch\<close>
  logs and falls through. The result is the value returned and the providers requested
  on the way.
\<close>

definition getCurrentPrice ::
  "(jsval \<Rightarrow> jsnum) \<Rightarrow> quote_sources \<Rightarrow> js_error + (jsval \<times> provider list)" where
  "getCurrentPrice parseFloat env =
     (case (case yahooQuote env of
              Inr v \<Rightarrow> if truthy v then Some v else None
            | Inl error \<Rightarrow> None) of
        Some price \<Rightarrow> Inr (price, [Yahoo])
      | None \<Rightarrow>
     (case (if ALPHA_VANTAGE_KEY env \<noteq> ''demo'' then
              (case alphaVantageQuote env of
                 Inr v \<Rightarrow> if truthy v then Some (JNumber (parseFloat v)) else None
               | Inl error \<Rightarrow> None)
            else None) of
        Some price \<Rightarrow> Inr (price, [Yahoo, AlphaVantage])
      | None \<Rightarrow>
     (case (if FMP_KEY env \<noteq> ''demo'' then
              (case fmpQuote env of
                 Inr v \<Rightarrow> if truthy v then Some v else None
               | Inl error \<Rightarrow> None)
            else None) of
        Some price \<Rightarrow>
          Inr (price, [Yahoo] @ (if ALPHA_VANTAGE_KEY env \<noteq> ''demo'' then [AlphaVantage] else [])
                        @ [FMP])
      | None \<Rightarrow>
          Inr (JNumber (Fin 250),
               [Yahoo] @ (if ALPHA_VANTAGE_KEY env \<noteq> ''demo'' then [AlphaVantage] else [])
                 @ (if FMP_KEY env \<noteq> ''demo'' then [FMP] else [])))))"

text \<open>
  The same as a search: the providers that are configured, in the order of priority;
  the answer of a provider, if it has one; the first answer in a list of providers, or
  the fallback 250.
\<close>

definition configured :: "quote_sources \<Rightarrow> provider list" where
  "configured env =
     [Yahoo] @ (if ALPHA_VANTAGE_KEY env \<noteq> ''demo'' then [AlphaVantage] else [])
       @ (if FMP_KEY env \<noteq> ''demo'' then [FMP] else [])"

fun answer :: "(jsval \<Rightarrow> jsnum) \<Rightarrow> quote_sources \<Rightarrow> provider \<Rightarrow> jsval option" where
  "answer parseFloat env Yahoo =
     (case yahooQuote env of Inr v \<Rightarrow> if truthy v then Some v else None | Inl error \<Rightarrow> None)"
| "answer parseFloat env AlphaVantage =
     (case alphaVantageQuote env of
        Inr v \<Rightarrow> if truthy v then Some (JNumber (parseFloat v)) else None
      | Inl error \<Rightarrow> None)"
| "answer parseFloat env FMP =
     (case fmpQuote env of Inr v \<Rightarrow> if truthy v then Some v else None | Inl error \<Rightarrow> None)"

fun firstAnswer ::
  "(provider \<Rightarrow> jsval option) \<Rightarrow> provider list \<Rightarrow> provider list \<Rightarrow> jsval \<times> provider list" where
  "firstAnswer f [] asked = (JNumber (Fin 250), asked)"
| "firstAnswer f (p # ps) asked =
     (case f p of Some v \<Rightarrow> (v, asked @ [p]) | None \<Rightarrow> firstAnswer f ps (asked @ [p]))"

text \<open>A stand-in for \<open>parseFloat\<close> on the values below, and three states of the providers.\<close>

definition exampleParseFloat :: "jsval \<Rightarrow> jsnum" where
  "exampleParseFloat v =
     (case v of JNumber n \<Rightarrow> n
      | JString s \<Rightarrow> if s = ''248.5000'' then Fin 248.5 else if s = ''0.0000'' then Fin 0 else NaN
      | _ \<Rightarrow> NaN)"

definition negativeQuote :: quote_sources where
  "negativeQuote =
     \<lparr> yahooQuote = Inr (JNumber (Fin (- 1))), alphaVantageQuote = Inl (Error ''not asked''),
       fmpQuote = Inl (Error ''not asked''), ALPHA_VANTAGE_KEY = ''demo'', FMP_KEY = ''demo'' \<rparr>"

definition zeroQuote :: quote_sources where
  "zeroQuote =
     \<lparr> yahooQuote = Inl (Error ''fetch failed''), alphaVantageQuote = Inr (JString ''0.0000''),
       fmpQuote = Inr (JNumber (Fin 251)), ALPHA_VANTAGE_KEY = ''key'', FMP_KEY = ''key'' \<rparr>"

definition allFail :: quote_sources where
  "allFail =
     \<lparr> yahooQuote = Inl (Error ''fetch failed''), alphaVantageQuote = Inr JUndefined,
       fmpQuote = Inr (JNumber (Fin 0)), ALPHA_VANTAGE_KEY = ''key'', FMP_KEY = ''key'' \<rparr>"

section \<open>The options handlers\<close>

text \<open>
  The response of the chain lookup, as deep as the handler reads it:
  \<open>optionsData.optionChain.result[0].options[0]\<close> with its \<open>calls\<close> and \<open>puts\<close>. \<open>None\<close>
  is a property that is missing or \<open>null\<close>; the payload itself is \<open>None\<close> when the
  response parses to \<open>null\<close>.
\<close>

datatype options_entry = OptionsEntry "OptionContract list option" "OptionContract list option"

datatype result_entry = ResultEntry "options_entry list option"

datatype option_chain = OptionChain "result_entry list option"

datatype options_data = OptionsData "option_chain option"

text \<open>
  The payload of a response (\<open>lastUpdate\<close> is the instant whose ISO string the source
  stores) and the response: \<open>payload\<close> is the property \<open>data\<close> of the JSON body.
\<close>

record response_data =
  currentPrice :: real
  lastUpdate :: int
  recommendations :: "CreditSpreadRecommendation list"

record api_response =
  success :: bool
  payload :: response_data
  cached :: bool

text \<open>
  From the test on \<open>optionsData\<close> to \<open>allOptions\<close>: the \<open>throw\<close> of the handler and the
  type errors of reading a property of \<open>null\<close> or \<open>undefined\<close>.
\<close>

fun extractOptions :: "options_data option \<Rightarrow> js_error + OptionContract list" where
  "extractOptions None = Inl TypeError"
| "extractOptions (Some (OptionsData None)) = Inl (Error ''No options data available'')"
| "extractOptions (Some (OptionsData (Some (OptionChain None)))) =
     Inl (Error ''No options data available'')"
| "extractOptions (Some (OptionsData (Some (OptionChain (Some []))))) =
     Inl (Error ''No options data available'')"
| "extractOptions (Some (OptionsData (Some (OptionChain (Some (ResultEntry None # rest)))))) =
     Inl TypeError"
| "extractOptions (Some (OptionsData (Some (OptionChain (Some (ResultEntry (Some []) # rest)))))) =
     Inl TypeError"
| "extractOptions (Some (OptionsData (Some (OptionChain
       (Some (ResultEntry (Some (OptionsEntry calls puts # others)) # rest)))))) =
     Inr ((case calls of Some cs \<Rightarrow> cs | None \<Rightarrow> []) @ (case puts of Some ps \<Rightarrow> ps | None \<Rightarrow> []))"

definition mockRecommendations :: "int \<Rightarrow> CreditSpreadRecommendation list" where
  "mockRecommendations now =
     [\<lparr> spreadType = Call, shortStrike = 260, longStrike = 265,
        expirationDate = DateOfMs (now + 7 * 24 * 60 * 60 * 1000),
        creditReceived = 1.25, maxProfit = 1.25, maxLoss = 3.75, breakeven = 261.25,
        probOfProfit = Fin 68, riskRewardRatio = Fin 0.33, daysToExpiration = 7 \<rparr>,
      \<lparr> spreadType = Put, shortStrike = 240, longStrike = 235,
        expirationDate = DateOfMs (now + 7 * 24 * 60 * 60 * 1000),
        creditReceived = 1.10, maxProfit = 1.10, maxLoss = 3.90, breakeven = 238.90,
        probOfProfit = Fin 72, riskRewardRatio = Fin 0.28, daysToExpiration = 7 \<rparr>]"

definition mockResponse :: "int \<Rightarrow> api_response" where
  "mockResponse now =
     \<lparr> success = True,
       payload = \<lparr> currentPrice = 250.75, lastUpdate = now,
                   recommendations = mockRecommendations now \<rparr>,
       cached = False \<rparr>"

text \<open>
  \<open>GET\<close> of the enhanced route. \<open>now\<close> is the clock when the handler starts, \<open>later\<close>
  the clock once the lookups are back, \<open>clock\<close> gives the readings inside
  \<open>findCreditSpreads\<close>; \<open>price\<close> is the number \<open>getCurrentPrice\<close> resolved
  to (it throws nothing); \<open>chainLookup\<close> is what the request of the chain and the parsing
  of its response give. The handler runs on the cache and returns the cache it leaves.
\<close>

definition GET ::
  "int \<Rightarrow> int \<Rightarrow> (reading \<Rightarrow> int) \<Rightarrow> real \<Rightarrow> js_error + options_data option \<Rightarrow> response_data SimpleCache
     \<Rightarrow> js_error + (api_response \<times> response_data SimpleCache)" where
  "GET now later clock price chainLookup cache =
     (let cacheKey = ''tsla-options-data'';
          (cachedData, cache1) = SimpleCache_get now cacheKey cache
      in case cachedData of
           Some d \<Rightarrow> Inr (\<lparr> success = True, payload = d, cached = True \<rparr>, cache1)
         | None \<Rightarrow>
             (case (case chainLookup of
                      Inl error \<Rightarrow> Inl error
                    | Inr optionsData \<Rightarrow>
                        (case extractOptions optionsData of
                           Inl error \<Rightarrow> Inl error
                         | Inr allOptions \<Rightarrow>
                             Inr \<lparr> currentPrice = price, lastUpdate = later,
                                   recommendations = findCreditSpreads clock allOptions price 7 \<rparr>)) of
                Inr responseData \<Rightarrow>
                  Inr (\<lparr> success = True, payload = responseData, cached = False \<rparr>,
                       SimpleCache_set later cacheKey responseData 30 cache1)
              | Inl error \<Rightarrow> Inr (mockResponse later, cache1)))"

text \<open>
  \<open>GET\<close> of the basic route (\<open>route.ts\<close>) asks one provider for the price inside the
  \<open>try\<close>: \<open>priceLookup\<close> is \<open>Inl\<close> when that throws, otherwise the number parsed from
  the quote, or \<open>None\<close> when the payload has no quote and the price stays 250.
\<close>

definition GET_route ::
  "int \<Rightarrow> int \<Rightarrow> (reading \<Rightarrow> int) \<Rightarrow> js_error + real option \<Rightarrow> js_error + options_data option
     \<Rightarrow> response_data SimpleCache \<Rightarrow> js_error + (api_response \<times> response_data SimpleCache)" where
  "GET_route now later clock priceLookup chainLookup cache =
     (let cacheKey = ''tsla-options-data'';
          (cachedData, cache1) = SimpleCache_get now cacheKey cache
      in case cachedData of
           Some d \<Rightarrow> Inr (\<lparr> success = True, payload = d, cached = True \<rparr>, cache1)
         | None \<Rightarrow>
             (case (case priceLookup of
                      Inl error \<Rightarrow> Inl error
                    | Inr quote \<Rightarrow>
                        (let price = (case quote of Some p \<Rightarrow> p | None \<Rightarrow> 250)
                         in case chainLookup of
                              Inl error \<Rightarrow> Inl error
                            | Inr optionsData \<Rightarrow>
                                (case extractOptions optionsData of
                                   Inl error \<Rightarrow> Inl error
                                 | Inr allOptions \<Rightarrow>
                                     Inr \<lparr> currentPrice = price, lastUpdate = later,
                                           recommendations =
                                             findCreditSpreads_route clock allOptions price 7 \<rparr>))) of
                Inr responseData \<Rightarrow>
                  Inr (\<lparr> success = True, payload = responseData, cached = False \<rparr>,
                       SimpleCache_set later cacheKey responseData 30 cache1)
              | Inl error \<Rightarrow> Inr (mockResponse later, cache1)))"

text \<open>
  The lookups without a chain: the lookup throws, the payload is \<open>null\<close>, it has no
  \<open>optionChain\<close>, no \<open>result\<close>, an empty \<open>result\<close>, or a first result without an entry
  of \<open>options\<close>.
\<close>

fun noChain :: "js_error + options_data option \<Rightarrow> bool" where
  "noChain (Inl error) = True"
| "noChain (Inr None) = True"
| "noChain (Inr (Some (OptionsData None))) = True"
| "noChain (Inr (Some (OptionsData (Some (OptionChain None))))) = True"
| "noChain (Inr (Some (OptionsData (Some (OptionChain (Some [])))))) = True"
| "noChain (Inr (Some (OptionsData (Some (OptionChain (Some (ResultEntry None # rest))))))) = True"
| "noChain (Inr (Some (OptionsData (Some (OptionChain (Some (ResultEntry (Some []) # rest))))))) = True"
| "noChain (Inr (Some (OptionsData (Some (OptionChain (Some (ResultEntry (Some (e # es)) # rest))))))) = False"

text \<open>
  Three payloads: one entry of options whose \<open>calls\<close> and \<open>puts\<close> are empty arrays, one
  entry of options that has neither, and an empty \<open>result\<close>.
\<close>

definition missingListsPayload :: "js_error + options_data option" where
  "missingListsPayload =
     Inr (Some (OptionsData (Some (OptionChain
       (Some [ResultEntry (Some [OptionsEntry None None])])))))"

definition emptyEntryPayload :: "js_error + options_data option" where
  "emptyEntryPayload =
     Inr (Some (OptionsData (Some (OptionChain
       (Some [ResultEntry (Some [OptionsEntry (Some []) (Some [])])])))))"

definition emptyResultPayload :: "js_error + options_data option" where
  "emptyResultPayload = Inr (Some (OptionsData (Some (OptionChain (Some [])))))"

section \<open>Proofs: numbers and sorting\<close>

lemma set_insertBy: "set (insertBy cmp x ys) = insert x (set ys)"
  by (induction ys) auto

lemma set_js_sort: "set (js_sort cmp xs) = set xs"
  by (induction xs) (auto simp: js_sort_def set_insertBy)

lemma length_insertBy: "length (insertBy cmp x ys) = Suc (length ys)"
  by (induction ys) auto

lemma length_js_sort: "length (js_sort cmp xs) = length xs"
  by (induction xs) (auto simp: js_sort_def length_insertBy)

lemma js_gt_not_NaN: "js_gt x y \<Longrightarrow> x \<noteq> NaN"
  by (cases x; cases y) (auto simp: js_gt_def)

lemma cmp_pos_iff: "a \<noteq> NaN \<Longrightarrow> b \<noteq> NaN \<Longrightarrow> js_gt (js_sub b a) (Fin 0) = js_lt a b"
  by (cases a; cases b) (auto simp: js_gt_def js_sub_def)

lemma cmp_pos_neq: "js_gt (js_sub b a) (Fin 0) \<Longrightarrow> b \<noteq> a"
  by (cases a; cases b) (auto simp: js_gt_def js_sub_def)

lemma js_lt_ge: "js_lt a b \<Longrightarrow> js_ge b a"
  by (cases a; cases b) (auto simp: js_ge_def)

lemma not_js_lt_ge: "a \<noteq> NaN \<Longrightarrow> b \<noteq> NaN \<Longrightarrow> \<not> js_lt a b \<Longrightarrow> js_ge a b"
  by (cases a; cases b) (auto simp: js_ge_def)

lemma js_ge_trans: "js_ge a b \<Longrightarrow> js_ge b c \<Longrightarrow> js_ge a c"
  by (cases a; cases b; cases c) (auto simp: js_ge_def)

lemma sorted_insertBy:
  assumes "sorted_wrt byRatioDesc ys" "riskRewardRatio x \<noteq> NaN"
    "\<forall>y\<in>set ys. riskRewardRatio y \<noteq> NaN"
  shows "sorted_wrt byRatioDesc (insertBy byRiskReward x ys)"
  using assms
proof (induction ys)
  case Nil
  then show ?case by simp
next
  case (Cons y ys)
  show ?case
  proof (cases "js_gt (byRiskReward x y) (Fin 0)")
    case True
    then have lt: "js_lt (riskRewardRatio x) (riskRewardRatio y)"
      using Cons.prems by (simp add: byRiskReward_def cmp_pos_iff)
    have "byRatioDesc y x" using lt by (simp add: byRatioDesc_def js_lt_ge)
    moreover have "sorted_wrt byRatioDesc (insertBy byRiskReward x ys)"
      using Cons by simp
    ultimately show ?thesis using True Cons.prems by (auto simp: set_insertBy)
  next
    case False
    then have "\<not> js_lt (riskRewardRatio x) (riskRewardRatio y)"
      using Cons.prems by (simp add: byRiskReward_def cmp_pos_iff)
    then have xy: "byRatioDesc x y"
      using Cons.prems by (simp add: byRatioDesc_def not_js_lt_ge)
    have "byRatioDesc x z" if "z \<in> set ys" for z
      using that xy Cons.prems(1) by (auto simp: byRatioDesc_def intro: js_ge_trans)
    then show ?thesis using False xy Cons.prems by auto
  qed
qed

lemma sorted_js_sort:
  "\<forall>x\<in>set xs. riskRewardRatio x \<noteq> NaN \<Longrightarrow> sorted_wrt byRatioDesc (js_sort byRiskReward xs)"
proof (induction xs)
  case Nil
  then show ?case by (simp add: js_sort_def)
next
  case (Cons x xs)
  then have "sorted_wrt byRatioDesc (js_sort byRiskReward xs)" by simp
  then have "sorted_wrt byRatioDesc (insertBy byRiskReward x (js_sort byRiskReward xs))"
    using Cons.prems by (intro sorted_insertBy) (auto simp: set_js_sort)
  then show ?case by (simp add: js_sort_def)
qed

lemma filter_insertBy:
  "filter (\<lambda>r. riskRewardRatio r = k) (insertBy byRiskReward x ys) =
     (if riskRewardRatio x = k then x # filter (\<lambda>r. riskRewardRatio r = k) ys
      else filter (\<lambda>r. riskRewardRatio r = k) ys)"
  by (induction ys) (auto simp: byRiskReward_def dest: cmp_pos_neq)

lemma filter_js_sort:
  "filter (\<lambda>r. riskRewardRatio r = k) (js_sort byRiskReward xs) =
   filter (\<lambda>r. riskRewardRatio r = k) xs"
proof (induction xs)
  case Nil
  then show ?case by (simp add: js_sort_def)
next
  case (Cons x xs)
  have "js_sort byRiskReward (x # xs) = insertBy byRiskReward x (js_sort byRiskReward xs)"
    by (simp add: js_sort_def)
  then show ?case using Cons by (simp add: filter_insertBy)
qed

section \<open>Proofs: the pairing engine and the ranker\<close>

lemma ratio_accept:
  assumes "0 < c" "js_gt (js_div (Fin c) (Fin m)) (Fin t)" "0 < t"
  shows "0 \<le> m \<and> t * m < c"
proof (cases "m = 0")
  case True
  then show ?thesis using assms by simp
next
  case False
  then have "t < c / m" using assms by (simp add: js_gt_def)
  then have "0 < c / m" using assms(3) by linarith
  then have "0 < m" using assms(1) by (simp add: zero_less_divide_iff)
  then show ?thesis using \<open>t < c / m\<close> by (simp add: pos_less_divide_eq)
qed

lemma callLoop_elem:
  assumes "r \<in> set (callLoop clock k cp xs)"
  shows "(\<exists>i. legsAt (\<lambda>i. clock (AtCall (k + i))) xs i r) \<and>
      spreadType r = Call \<and>
      shortStrike r < longStrike r \<and>
      maxProfit r = creditReceived r \<and>
      maxLoss r = (longStrike r - shortStrike r) - creditReceived r \<and>
      breakeven r = shortStrike r + creditReceived r \<and>
      riskRewardRatio r = js_div (Fin (maxProfit r)) (Fin (maxLoss r)) \<and>
      0.15 < creditReceived r \<and>
      js_gt (riskRewardRatio r) (Fin 0.25) \<and>
      5 \<le> daysToExpiration r \<and> daysToExpiration r \<le> 10"
  using assms
proof (induction clock k cp xs rule: callLoop.induct)
  case (1 clock k cp s l rest)
  from "1.prems" consider
    (head) "r \<in> set (callLoop clock k cp [s, l])"
    | (tail) "r \<in> set (callLoop clock (Suc k) cp (l # rest))"
    by (auto simp: Let_def split: if_splits)
  then show ?case
  proof cases
    case head
    then have "legsAt (\<lambda>i. clock (AtCall (k + i))) (s # l # rest) 0 r \<and>
      spreadType r = Call \<and>
      shortStrike r < longStrike r \<and>
      maxProfit r = creditReceived r \<and>
      maxLoss r = (longStrike r - shortStrike r) - creditReceived r \<and>
      breakeven r = shortStrike r + creditReceived r \<and>
      riskRewardRatio r = js_div (Fin (maxProfit r)) (Fin (maxLoss r)) \<and>
      0.15 < creditReceived r \<and>
      js_gt (riskRewardRatio r) (Fin 0.25) \<and>
      5 \<le> daysToExpiration r \<and> daysToExpiration r \<le> 10"
      by (auto simp: Let_def legsAt_def split: if_splits)
    then show ?thesis by blast
  next
    case tail
    from "1.IH"[OF tail] obtain i where
      i: "legsAt (\<lambda>i. clock (AtCall (Suc k + i))) (l # rest) i r" by blast
    then have "legsAt (\<lambda>i. clock (AtCall (k + i))) (s # l # rest) (Suc i) r"
      by (simp add: legsAt_def)
    with "1.IH"[OF tail] show ?thesis by blast
  qed
qed simp_all

lemma length_callLoop: "length (callLoop clock k cp xs) \<le> length xs - 1"
  by (induction clock k cp xs rule: callLoop.induct) (auto simp: Let_def)

lemma putLoop_elem:
  assumes "r \<in> set (putLoop clock k cp xs)"
  shows "(\<exists>i. legsAt (\<lambda>i. clock (AtPut (k + i))) xs i r) \<and>
      spreadType r = Put \<and>
      longStrike r < shortStrike r \<and>
      maxProfit r = creditReceived r \<and>
      maxLoss r = (shortStrike r - longStrike r) - creditReceived r \<and>
      breakeven r = shortStrike r - creditReceived r \<and>
      riskRewardRatio r = js_div (Fin (maxProfit r)) (Fin (maxLoss r)) \<and>
      0.15 < creditReceived r \<and>
      js_gt (riskRewardRatio r) (Fin 0.25) \<and>
      5 \<le> daysToExpiration r \<and> daysToExpiration r \<le> 10"
  using assms
proof (induction clock k cp xs rule: putLoop.induct)
  case (1 clock k cp s l rest)
  from "1.prems" consider
    (head) "r \<in> set (putLoop clock k cp [s, l])"
    | (tail) "r \<in> set (putLoop clock (Suc k) cp (l # rest))"
    by (auto simp: Let_def split: if_splits)
  then show ?case
  proof cases
    case head
    then have "legsAt (\<lambda>i. clock (AtPut (k + i))) (s # l # rest) 0 r \<and>
      spreadType r = Put \<and>
      longStrike r < shortStrike r \<and>
      maxProfit r = creditReceived r \<and>
      maxLoss r = (shortStrike r - longStrike r) - creditReceived r \<and>
      breakeven r = shortStrike r - creditReceived r \<and>
      riskRewardRatio r = js_div (Fin (maxProfit r)) (Fin (maxLoss r)) \<and>
      0.15 < creditReceived r \<and>
      js_gt (riskRewardRatio r) (Fin 0.25) \<and>
      5 \<le> daysToExpiration r \<and> daysToExpiration r \<le> 10"
      by (auto simp: Let_def legsAt_def split: if_splits)
    then show ?thesis by blast
  next
    case tail
    from "1.IH"[OF tail] obtain i where
      i: "legsAt (\<lambda>i. clock (AtPut (Suc k + i))) (l # rest) i r" by blast
    then have "legsAt (\<lambda>i. clock (AtPut (k + i))) (s # l # rest) (Suc i) r"
      by (simp add: legsAt_def)
    with "1.IH"[OF tail] show ?thesis by blast
  qed
qed simp_all

lemma length_putLoop: "length (putLoop clock k cp xs) \<le> length xs - 1"
  by (induction clock k cp xs rule: putLoop.induct) (auto simp: Let_def)

lemma callLoop_route_elem:
  assumes "r \<in> set (callLoop_route clock k cp xs)"
  shows "(\<exists>i. legsAt (\<lambda>i. clock (AtCall (k + i))) xs i r) \<and>
      spreadType r = Call \<and>
      shortStrike r < longStrike r \<and>
      maxProfit r = creditReceived r \<and>
      maxLoss r = (longStrike r - shortStrike r) - creditReceived r \<and>
      breakeven r = shortStrike r + creditReceived r \<and>
      riskRewardRatio r = js_div (Fin (maxProfit r)) (Fin (maxLoss r)) \<and>
      0.10 < creditReceived r \<and>
      js_gt (riskRewardRatio r) (Fin 0.2)"
  using assms
proof (induction clock k cp xs rule: callLoop_route.induct)
  case (1 clock k cp s l rest)
  from "1.prems" consider
    (head) "r \<in> set (callLoop_route clock k cp [s, l])"
    | (tail) "r \<in> set (callLoop_route clock (Suc k) cp (l # rest))"
    by (auto simp: Let_def split: if_splits)
  then show ?case
  proof cases
    case head
    then have "legsAt (\<lambda>i. clock (AtCall (k + i))) (s # l # rest) 0 r \<and>
      spreadType r = Call \<and>
      shortStrike r < longStrike r \<and>
      maxProfit r = creditReceived r \<and>
      maxLoss r = (longStrike r - shortStrike r) - creditReceived r \<and>
      breakeven r = shortStrike r + creditReceived r \<and>
      riskRewardRatio r = js_div (Fin (maxProfit r)) (Fin (maxLoss r)) \<and>
      0.10 < creditReceived r \<and>
      js_gt (riskRewardRatio r) (Fin 0.2)"
      by (auto simp: Let_def legsAt_def split: if_splits)
    then show ?thesis by blast
  next
    case tail
    from "1.IH"[OF tail] obtain i where
      i: "legsAt (\<lambda>i. clock (AtCall (Suc k + i))) (l # rest) i r" by blast
    then have "legsAt (\<lambda>i. clock (AtCall (k + i))) (s # l # rest) (Suc i) r"
      by (simp add: legsAt_def)
    with "1.IH"[OF tail] show ?thesis by blast
  qed
qed simp_all

lemma length_callLoop_route: "length (callLoop_route clock k cp xs) \<le> length xs - 1"
  by (induction clock k cp xs rule: callLoop_route.induct) (auto simp: Let_def)

lemma putLoop_route_elem:
  assumes "r \<in> set (putLoop_route clock k cp xs)"
  shows "(\<exists>i. legsAt (\<lambda>i. clock (AtPut (k + i))) xs i r) \<and>
      spreadType r = Put \<and>
      longStrike r < shortStrike r \<and>
      maxProfit r = creditReceived r \<and>
      maxLoss r = (shortStrike r - longStrike r) - creditReceived r \<and>
      breakeven r = shortStrike r - creditReceived r \<and>
      riskRewardRatio r = js_div (Fin (maxProfit r)) (Fin (maxLoss r)) \<and>
      0.10 < creditReceived r \<and>
      js_gt (riskRewardRatio r) (Fin 0.2)"
  using assms
proof (induction clock k cp xs rule: putLoop_route.induct)
  case (1 clock k cp s l rest)
  from "1.prems" consider
    (head) "r \<in> set (putLoop_route clock k cp [s, l])"
    | (tail) "r \<in> set (putLoop_route clock (Suc k) cp (l # rest))"
    by (auto simp: Let_def split: if_splits)
  then show ?case
  proof cases
    case head
    then have "legsAt (\<lambda>i. clock (AtPut (k + i))) (s # l # rest) 0 r \<and>
      spreadType r = Put \<and>
      longStrike r < shortStrike r \<and>
      maxProfit r = creditReceived r \<and>
      maxLoss r = (shortStrike r - longStrike r) - creditReceived r \<and>
      breakeven r = shortStrike r - creditReceived r \<and>
      riskRewardRatio r = js_div (Fin (maxProfit r)) (Fin (maxLoss r)) \<and>
      0.10 < creditReceived r \<and>
      js_gt (riskRewardRatio r) (Fin 0.2)"
      by (auto simp: Let_def legsAt_def split: if_splits)
    then show ?thesis by blast
  next
    case tail
    from "1.IH"[OF tail] obtain i where
      i: "legsAt (\<lambda>i. clock (AtPut (Suc k + i))) (l # rest) i r" by blast
    then have "legsAt (\<lambda>i. clock (AtPut (k + i))) (s # l # rest) (Suc i) r"
      by (simp add: legsAt_def)
    with "1.IH"[OF tail] show ?thesis by blast
  qed
qed simp_all

lemma length_putLoop_route: "length (putLoop_route clock k cp xs) \<le> length xs - 1"
  by (induction clock k cp xs rule: putLoop_route.induct) (auto simp: Let_def)

lemma windowFilter_elem:
  "c \<in> set (windowFilter clock k tgt xs) \<Longrightarrow>
     \<exists>j<length xs. xs ! j = c \<and> inWindow (clock (AtFilter (k + j))) tgt c"
proof (induction xs arbitrary: k)
  case Nil
  then show ?case by simp
next
  case (Cons x xs)
  from Cons.prems consider
    (h) "c = x \<and> inWindow (clock (AtFilter k)) tgt x"
    | (t) "c \<in> set (windowFilter clock (Suc k) tgt xs)"
    by (auto split: if_splits)
  then show ?case
  proof cases
    case h
    then have "0 < length (x # xs) \<and> (x # xs) ! 0 = c \<and>
       inWindow (clock (AtFilter (k + 0))) tgt c" by simp
    then show ?thesis by blast
  next
    case t
    from Cons.IH[OF t] obtain j where
      "j < length xs" "xs ! j = c" "inWindow (clock (AtFilter (Suc k + j))) tgt c" by blast
    then have "Suc j < length (x # xs) \<and> (x # xs) ! Suc j = c \<and>
       inWindow (clock (AtFilter (k + Suc j))) tgt c" by simp
    then show ?thesis by blast
  qed
qed

lemma subseq_windowFilter: "subseq (windowFilter clock k tgt xs) xs"
  by (induction xs arbitrary: k) auto

lemma subseq_callOptions:
  "subseq (callOptions clock tgt cp options) options \<and>
   subseq (putOptions clock tgt cp options) options"
proof -
  have t: "subseq (targetOptions clock tgt options) options"
    by (simp add: targetOptions_def subseq_windowFilter)
  have "subseq (filter (callSide cp) (targetOptions clock tgt options))
          (targetOptions clock tgt options)"
       "subseq (filter (putSide cp) (targetOptions clock tgt options))
          (targetOptions clock tgt options)"
    by simp_all
  with t show ?thesis
    unfolding callOptions_def putOptions_def
    by (blast intro: subseq_order.order_trans)
qed

lemma length_callOptions:
  "length (callOptions clock tgt cp options) \<le> length options \<and>
   length (putOptions clock tgt cp options) \<le> length options"
  using subseq_callOptions[of clock tgt cp options] by (blast dest: list_emb_length)

lemma callOptions_window:
  assumes "c \<in> set (callOptions clock tgt cp options) \<union> set (putOptions clock tgt cp options)"
  shows "c \<in> set options \<and>
     (\<exists>j<length options. options ! j = c \<and>
        tgt - 2 \<le> of_int (getDaysToExpiration (clock (AtFilter j)) (expiration c)) \<and>
        of_int (getDaysToExpiration (clock (AtFilter j)) (expiration c)) \<le> tgt + 2)"
proof -
  from assms have "c \<in> set (windowFilter clock 0 tgt options)"
    by (auto simp: callOptions_def putOptions_def targetOptions_def)
  from windowFilter_elem[OF this] obtain j where
    j: "j < length options" "options ! j = c" "inWindow (clock (AtFilter j)) tgt c" by auto
  from j(1,2) have "c \<in> set options" by auto
  with j show ?thesis by (auto simp: inWindow_def Let_def)
qed

lemma pairingStage_elem:
  assumes "r \<in> set (pairingStage clock options cp tgt)"
  shows "r \<in> set (callLoop clock 0 cp (callOptions clock tgt cp options)) \<or>
         r \<in> set (putLoop clock 0 cp (putOptions clock tgt cp options))"
  using assms by (auto simp: pairingStage_def)

lemma pairingStage_route_elem:
  assumes "r \<in> set (pairingStage_route clock options cp tgt)"
  shows "r \<in> set (callLoop_route clock 0 cp (callOptions clock tgt cp options)) \<or>
         r \<in> set (putLoop_route clock 0 cp (putOptions clock tgt cp options))"
  using assms by (auto simp: pairingStage_route_def)

lemma findCreditSpreads_subset:
  "set (findCreditSpreads clock options cp tgt) \<subseteq> set (pairingStage clock options cp tgt)"
  using set_take_subset[of 10 "js_sort byRiskReward (pairingStage clock options cp tgt)"]
  by (simp add: findCreditSpreads_def set_js_sort)

lemma findCreditSpreads_route_subset:
  "set (findCreditSpreads_route clock options cp tgt)
     \<subseteq> set (pairingStage_route clock options cp tgt)"
  using set_take_subset[of 10 "js_sort byRiskReward (pairingStage_route clock options cp tgt)"]
  by (simp add: findCreditSpreads_route_def set_js_sort)

lemma pairingStage_fields:
  assumes "r \<in> set (pairingStage clock options cp tgt)
             \<union> set (pairingStage_route clock options cp tgt)"
  shows "maxProfit r = creditReceived r \<and>
     maxLoss r = \<bar>longStrike r - shortStrike r\<bar> - creditReceived r \<and>
     riskRewardRatio r = js_div (Fin (maxProfit r)) (Fin (maxLoss r)) \<and>
     breakeven r = (case spreadType r of Call \<Rightarrow> shortStrike r + creditReceived r
                                      | Put \<Rightarrow> shortStrike r - creditReceived r)"
proof -
  from assms consider
      (c) "r \<in> set (callLoop clock 0 cp (callOptions clock tgt cp options))"
    | (p) "r \<in> set (putLoop clock 0 cp (putOptions clock tgt cp options))"
    | (cr) "r \<in> set (callLoop_route clock 0 cp (callOptions clock tgt cp options))"
    | (pr) "r \<in> set (putLoop_route clock 0 cp (putOptions clock tgt cp options))"
    using pairingStage_elem pairingStage_route_elem by blast
  then show ?thesis
  proof cases
    case c
    from callLoop_elem[OF c] show ?thesis by simp
  next
    case p
    from putLoop_elem[OF p] show ?thesis by simp
  next
    case cr
    from callLoop_route_elem[OF cr] show ?thesis by simp
  next
    case pr
    from putLoop_route_elem[OF pr] show ?thesis by simp
  qed
qed

text \<open>
  Claim C1. Every recommendation returned by \<open>findCreditSpreads\<close>, of the enhanced
  route or of the basic one, call side or put side, at whatever times the clock is
  read, has \<open>maxProfit\<close> equal to \<open>creditReceived\<close>, \<open>maxLoss\<close> equal to the distance of
  the two strikes less the credit, \<open>riskRewardRatio\<close> equal to the JavaScript quotient
  of \<open>maxProfit\<close> by \<open>maxLoss\<close>, and \<open>breakeven\<close> equal to the short strike plus the
  credit for a call and minus the credit for a put.
\<close>

theorem recommendation_fields:
  assumes "r \<in> set (findCreditSpreads clock options price targetDTE)
             \<union> set (findCreditSpreads_route clock options price targetDTE)"
  shows "maxProfit r = creditReceived r \<and>
     maxLoss r = \<bar>longStrike r - shortStrike r\<bar> - creditReceived r \<and>
     riskRewardRatio r = js_div (Fin (maxProfit r)) (Fin (maxLoss r)) \<and>
     breakeven r = (case spreadType r of Call \<Rightarrow> shortStrike r + creditReceived r
                                      | Put \<Rightarrow> shortStrike r - creditReceived r)"
proof -
  have "r \<in> set (pairingStage clock options price targetDTE)
          \<union> set (pairingStage_route clock options price targetDTE)"
    using assms findCreditSpreads_subset findCreditSpreads_route_subset by blast
  then show ?thesis by (rule pairingStage_fields)
qed

lemma days_7: "0 \<le> t \<Longrightarrow> t < 86400000 \<Longrightarrow> getDaysToExpiration t 604800 = 7"
proof -
  assume t: "0 \<le> t" "t < 86400000"
  have "\<lceil>(of_int (604800 * 1000 - t) :: real) / (1000 * 60 * 60 * 24)\<rceil> = 7"
    using t by (intro ceiling_unique) simp_all
  then show ?thesis by (simp add: getDaysToExpiration_def)
qed

lemma days_drift_5: "0 \<le> t \<Longrightarrow> t < 1000 \<Longrightarrow> getDaysToExpiration t 345601 = 5"
proof -
  assume t: "0 \<le> t" "t < 1000"
  have "\<lceil>(of_int (345601 * 1000 - t) :: real) / (1000 * 60 * 60 * 24)\<rceil> = 5"
    using t by (intro ceiling_unique) simp_all
  then show ?thesis by (simp add: getDaysToExpiration_def)
qed

lemma days_drift_4: "getDaysToExpiration 1000 345601 = 4"
  by (simp add: getDaysToExpiration_def)

lemma days_mono:
  "now \<le> later \<Longrightarrow> getDaysToExpiration later e \<le> getDaysToExpiration now e"
  by (auto simp: getDaysToExpiration_def intro!: ceiling_mono divide_right_mono)

lemmas chain_eval = pairingStage_def pairingStage_route_def callOptions_def putOptions_def
  targetOptions_def contract_def inWindow_def days_7 callSide_def putSide_def
  js_gt_def js_sort_def Let_def

lemma example_shortStrike:
  "map shortStrike (findCreditSpreads tickingClock exampleChain 255 7) = [260]"
  by (simp add: findCreditSpreads_def exampleChain_def chain_eval)

lemma hd_in_set_map: "map f xs = v # vs \<Longrightarrow> hd xs \<in> set xs"
  by (cases xs) auto

text \<open>
  The theorem at the chain of the end-to-end scenario.
\<close>

theorem recommendation_fields_witness:
  "hd (findCreditSpreads tickingClock exampleChain 255 7) \<in>
      set (findCreditSpreads tickingClock exampleChain 255 7)
        \<union> set (findCreditSpreads_route tickingClock exampleChain 255 7) \<and>
   maxProfit (hd (findCreditSpreads tickingClock exampleChain 255 7)) =
      creditReceived (hd (findCreditSpreads tickingClock exampleChain 255 7)) \<and>
   maxLoss (hd (findCreditSpreads tickingClock exampleChain 255 7)) =
      \<bar>longStrike (hd (findCreditSpreads tickingClock exampleChain 255 7))
         - shortStrike (hd (findCreditSpreads tickingClock exampleChain 255 7))\<bar>
      - creditReceived (hd (findCreditSpreads tickingClock exampleChain 255 7)) \<and>
   riskRewardRatio (hd (findCreditSpreads tickingClock exampleChain 255 7)) =
      js_div (Fin (maxProfit (hd (findCreditSpreads tickingClock exampleChain 255 7))))
             (Fin (maxLoss (hd (findCreditSpreads tickingClock exampleChain 255 7))))"
proof -
  have mem: "hd (findCreditSpreads tickingClock exampleChain 255 7) \<in>
      set (findCreditSpreads tickingClock exampleChain 255 7)
        \<union> set (findCreditSpreads_route tickingClock exampleChain 255 7)"
    using hd_in_set_map[OF example_shortStrike] by simp
  from recommendation_fields[OF mem] mem show ?thesis by simp
qed

lemma legsAt_window:
  assumes "legsAt rd xs i r"
    "set xs \<subseteq> set (callOptions clock tgt cp options) \<union> set (putOptions clock tgt cp options)"
    "length xs \<le> length options"
  shows "\<exists>j. j < length options \<and> i < length options \<and>
     shortStrike r = strike (options ! j) \<and>
     tgt - 2 \<le> of_int (getDaysToExpiration (clock (AtFilter j)) (expiration (options ! j))) \<and>
     of_int (getDaysToExpiration (clock (AtFilter j)) (expiration (options ! j))) \<le> tgt + 2 \<and>
     daysToExpiration r = getDaysToExpiration (rd i) (expiration (options ! j))"
proof -
  have i: "Suc i < length xs" using assms(1) by (simp add: legsAt_def)
  then have "xs ! i \<in> set xs" by simp
  then have "xs ! i \<in> set (callOptions clock tgt cp options)
                \<union> set (putOptions clock tgt cp options)"
    using assms(2) by blast
  from callOptions_window[OF this] obtain j where
    "j < length options" "options ! j = xs ! i"
    "tgt - 2 \<le> of_int (getDaysToExpiration (clock (AtFilter j)) (expiration (xs ! i)))"
    "of_int (getDaysToExpiration (clock (AtFilter j)) (expiration (xs ! i))) \<le> tgt + 2"
    by blast
  moreover have "i < length options" using i assms(3) by simp
  ultimately show ?thesis using assms(1) unfolding legsAt_def by auto
qed

lemma ratio_not_NaN:
  assumes "r \<in> set (pairingStage clock options cp tgt)
             \<union> set (pairingStage_route clock options cp tgt)"
  shows "riskRewardRatio r \<noteq> NaN"
proof -
  from assms consider
      (c) "r \<in> set (callLoop clock 0 cp (callOptions clock tgt cp options))"
    | (p) "r \<in> set (putLoop clock 0 cp (putOptions clock tgt cp options))"
    | (cr) "r \<in> set (callLoop_route clock 0 cp (callOptions clock tgt cp options))"
    | (pr) "r \<in> set (putLoop_route clock 0 cp (putOptions clock tgt cp options))"
    using pairingStage_elem pairingStage_route_elem by blast
  then show ?thesis
  proof cases
    case c
    from callLoop_elem[OF c] show ?thesis by (blast dest: js_gt_not_NaN)
  next
    case p
    from putLoop_elem[OF p] show ?thesis by (blast dest: js_gt_not_NaN)
  next
    case cr
    from callLoop_route_elem[OF cr] show ?thesis by (blast dest: js_gt_not_NaN)
  next
    case pr
    from putLoop_route_elem[OF pr] show ?thesis by (blast dest: js_gt_not_NaN)
  qed
qed

lemma rankedFrom_take_sort:
  assumes "\<forall>x\<in>set cands. riskRewardRatio x \<noteq> NaN"
  shows "rankedFrom cands (take 10 (js_sort byRiskReward cands))"
proof -
  let ?ss = "js_sort byRiskReward cands"
  have "sorted_wrt byRatioDesc ?ss" using assms by (rule sorted_js_sort)
  then have s: "sorted_wrt byRatioDesc (take 10 ?ss)" by (rule sorted_wrt_take)
  have st: "\<exists>zs. filter (\<lambda>r. riskRewardRatio r = k) cands =
           filter (\<lambda>r. riskRewardRatio r = k) (take 10 ?ss) @ zs" for k
  proof -
    have "filter (\<lambda>r. riskRewardRatio r = k) cands = filter (\<lambda>r. riskRewardRatio r = k) (take 10 ?ss @ drop 10 ?ss)"
      by (simp add: filter_js_sort)
    then show ?thesis by (metis filter_append)
  qed
  have l: "length (take 10 ?ss) = min 10 (length cands)" by (simp add: length_js_sort min.commute)
  have sub: "set (take 10 ?ss) \<subseteq> set cands"
    using set_take_subset[of 10 ?ss] by (simp add: set_js_sort)
  show ?thesis unfolding rankedFrom_def using s st l sub by blast
qed

lemma policy_enhanced:
  assumes "r \<in> set (pairingStage clock options cp tgt)"
  shows "0.15 < creditReceived r \<and>
         js_gt (js_div (Fin (maxProfit r)) (Fin (maxLoss r))) (Fin 0.25) \<and>
         0 \<le> maxLoss r \<and> 0.25 * maxLoss r < maxProfit r \<and>
         5 \<le> daysToExpiration r \<and> daysToExpiration r \<le> 10"
proof -
  have f: "0.15 < creditReceived r \<and> maxProfit r = creditReceived r \<and>
      riskRewardRatio r = js_div (Fin (maxProfit r)) (Fin (maxLoss r)) \<and>
      js_gt (riskRewardRatio r) (Fin 0.25) \<and>
      5 \<le> daysToExpiration r \<and> daysToExpiration r \<le> 10"
    using pairingStage_elem[OF assms] callLoop_elem putLoop_elem by blast
  then have r1: "riskRewardRatio r = js_div (Fin (maxProfit r)) (Fin (maxLoss r))"
    and r2: "js_gt (riskRewardRatio r) (Fin 0.25)" by blast+
  have g: "0 < maxProfit r" "js_gt (js_div (Fin (maxProfit r)) (Fin (maxLoss r))) (Fin 0.25)"
    using f r2 unfolding r1 by simp_all
  from ratio_accept[OF g] have "0 \<le> maxLoss r \<and> 0.25 * maxLoss r < maxProfit r" by simp
  with f g show ?thesis by blast
qed

lemma policy_route:
  assumes "r \<in> set (pairingStage_route clock options cp tgt)"
  shows "0.10 < creditReceived r \<and>
         js_gt (js_div (Fin (maxProfit r)) (Fin (maxLoss r))) (Fin 0.2) \<and>
         0 \<le> maxLoss r \<and> 0.2 * maxLoss r < maxProfit r \<and>
         (\<exists>j i. j < length options \<and> i < length options \<and>
            shortStrike r = strike (options ! j) \<and>
            tgt - 2 \<le> of_int (getDaysToExpiration (clock (AtFilter j)) (expiration (options ! j))) \<and>
            of_int (getDaysToExpiration (clock (AtFilter j)) (expiration (options ! j))) \<le> tgt + 2 \<and>
            (daysToExpiration r = getDaysToExpiration (clock (AtCall i)) (expiration (options ! j)) \<or>
             daysToExpiration r = getDaysToExpiration (clock (AtPut i)) (expiration (options ! j))))"
proof -
  have f: "0.10 < creditReceived r \<and> maxProfit r = creditReceived r \<and>
      riskRewardRatio r = js_div (Fin (maxProfit r)) (Fin (maxLoss r)) \<and>
      js_gt (riskRewardRatio r) (Fin 0.2)"
    using pairingStage_route_elem[OF assms] callLoop_route_elem putLoop_route_elem by blast
  have w: "\<exists>j i. j < length options \<and> i < length options \<and>
            shortStrike r = strike (options ! j) \<and>
            tgt - 2 \<le> of_int (getDaysToExpiration (clock (AtFilter j)) (expiration (options ! j))) \<and>
            of_int (getDaysToExpiration (clock (AtFilter j)) (expiration (options ! j))) \<le> tgt + 2 \<and>
            (daysToExpiration r = getDaysToExpiration (clock (AtCall i)) (expiration (options ! j)) \<or>
             daysToExpiration r = getDaysToExpiration (clock (AtPut i)) (expiration (options ! j)))"
    using pairingStage_route_elem[OF assms]
  proof
    assume "r \<in> set (callLoop_route clock 0 cp (callOptions clock tgt cp options))"
    then obtain i where
      "legsAt (\<lambda>i. clock (AtCall (0 + i))) (callOptions clock tgt cp options) i r"
      using callLoop_route_elem by blast
    from legsAt_window[OF this, of clock tgt cp options] length_callOptions[of clock tgt cp options]
    show ?thesis by auto
  next
    assume "r \<in> set (putLoop_route clock 0 cp (putOptions clock tgt cp options))"
    then obtain i where
      "legsAt (\<lambda>i. clock (AtPut (0 + i))) (putOptions clock tgt cp options) i r"
      using putLoop_route_elem by blast
    from legsAt_window[OF this, of clock tgt cp options] length_callOptions[of clock tgt cp options]
    show ?thesis by auto
  qed
  from f have r1: "riskRewardRatio r = js_div (Fin (maxProfit r)) (Fin (maxLoss r))"
    and r2: "js_gt (riskRewardRatio r) (Fin 0.2)" by blast+
  have g: "0 < maxProfit r" "js_gt (js_div (Fin (maxProfit r)) (Fin (maxLoss r))) (Fin 0.2)"
    using f r2 unfolding r1 by simp_all
  from ratio_accept[OF g] have "0 \<le> maxLoss r \<and> 0.2 * maxLoss r < maxProfit r" by simp
  with f g w show ?thesis by blast
qed

lemma policy_route_upper:
  assumes "r \<in> set (pairingStage_route clock options cp tgt)"
    "\<forall>j<length options. \<forall>i<length options.
       clock (AtFilter j) \<le> clock (AtCall i) \<and> clock (AtFilter j) \<le> clock (AtPut i)"
  shows "of_int (daysToExpiration r) \<le> tgt + 2"
proof -
  from policy_route[OF assms(1)] obtain j i where
    c: "j < length options" "i < length options"
      "of_int (getDaysToExpiration (clock (AtFilter j)) (expiration (options ! j))) \<le> tgt + 2"
      "daysToExpiration r = getDaysToExpiration (clock (AtCall i)) (expiration (options ! j)) \<or>
       daysToExpiration r = getDaysToExpiration (clock (AtPut i)) (expiration (options ! j))"
    by blast
  have "getDaysToExpiration (clock (AtCall i)) (expiration (options ! j))
          \<le> getDaysToExpiration (clock (AtFilter j)) (expiration (options ! j))"
       "getDaysToExpiration (clock (AtPut i)) (expiration (options ! j))
          \<le> getDaysToExpiration (clock (AtFilter j)) (expiration (options ! j))"
    using assms(2) c(1,2) by (simp_all add: days_mono)
  then have "daysToExpiration r
               \<le> getDaysToExpiration (clock (AtFilter j)) (expiration (options ! j))"
    using c(4) by auto
  then have "(of_int (daysToExpiration r) :: real)
               \<le> of_int (getDaysToExpiration (clock (AtFilter j)) (expiration (options ! j)))"
    by simp
  with c(3) show ?thesis by linarith
qed

text \<open>
  Claim C2, as the code has it. The enhanced route returns only recommendations with a
  credit above 0.15, a JavaScript quotient \<open>maxProfit / maxLoss\<close> above 0.25 and five
  to ten days to expiration. The basic route has the thresholds 0.10 and 0.2 and no
  test on the days it stores: the short leg of a recommendation was in the window
  around the target at the reading the filter took for it, and the days stored are
  those of that leg at a reading taken in a loop, so they are at most the target plus 2
  when no reading of a loop lies before a reading of the filter. In both routes
  \<open>maxLoss\<close> is never negative and lies below \<open>maxProfit\<close> divided by the threshold.
  Both lists are in descending order of the ratio, entries of equal ratio stand in the
  order of the pairing stage, and there are ten of them at most.
\<close>

theorem ranker_policy:
  "(\<forall>r \<in> set (findCreditSpreads clock options price targetDTE).
      0.15 < creditReceived r \<and>
      js_gt (js_div (Fin (maxProfit r)) (Fin (maxLoss r))) (Fin 0.25) \<and>
      0 \<le> maxLoss r \<and> 0.25 * maxLoss r < maxProfit r \<and>
      5 \<le> daysToExpiration r \<and> daysToExpiration r \<le> 10) \<and>
   (\<forall>r \<in> set (findCreditSpreads_route clock options price targetDTE).
      0.10 < creditReceived r \<and>
      js_gt (js_div (Fin (maxProfit r)) (Fin (maxLoss r))) (Fin 0.2) \<and>
      0 \<le> maxLoss r \<and> 0.2 * maxLoss r < maxProfit r \<and>
      (\<exists>j i. j < length options \<and> i < length options \<and>
         shortStrike r = strike (options ! j) \<and>
         targetDTE - 2
           \<le> of_int (getDaysToExpiration (clock (AtFilter j)) (expiration (options ! j))) \<and>
         of_int (getDaysToExpiration (clock (AtFilter j)) (expiration (options ! j)))
           \<le> targetDTE + 2 \<and>
         (daysToExpiration r
            = getDaysToExpiration (clock (AtCall i)) (expiration (options ! j)) \<or>
          daysToExpiration r
            = getDaysToExpiration (clock (AtPut i)) (expiration (options ! j)))) \<and>
      ((\<forall>j<length options. \<forall>i<length options.
          clock (AtFilter j) \<le> clock (AtCall i) \<and> clock (AtFilter j) \<le> clock (AtPut i))
         \<longrightarrow> of_int (daysToExpiration r) \<le> targetDTE + 2)) \<and>
   rankedFrom (pairingStage clock options price targetDTE)
     (findCreditSpreads clock options price targetDTE) \<and>
   rankedFrom (pairingStage_route clock options price targetDTE)
     (findCreditSpreads_route clock options price targetDTE)"
proof -
  have a: "r \<in> set (findCreditSpreads clock options price targetDTE) \<Longrightarrow>
      0.15 < creditReceived r \<and>
      js_gt (js_div (Fin (maxProfit r)) (Fin (maxLoss r))) (Fin 0.25) \<and>
      0 \<le> maxLoss r \<and> 0.25 * maxLoss r < maxProfit r \<and>
      5 \<le> daysToExpiration r \<and> daysToExpiration r \<le> 10" for r
    using findCreditSpreads_subset policy_enhanced by blast
  have b: "r \<in> set (findCreditSpreads_route clock options price targetDTE) \<Longrightarrow>
      0.10 < creditReceived r \<and>
      js_gt (js_div (Fin (maxProfit r)) (Fin (maxLoss r))) (Fin 0.2) \<and>
      0 \<le> maxLoss r \<and> 0.2 * maxLoss r < maxProfit r \<and>
      (\<exists>j i. j < length options \<and> i < length options \<and>
         shortStrike r = strike (options ! j) \<and>
         targetDTE - 2
           \<le> of_int (getDaysToExpiration (clock (AtFilter j)) (expiration (options ! j))) \<and>
         of_int (getDaysToExpiration (clock (AtFilter j)) (expiration (options ! j)))
           \<le> targetDTE + 2 \<and>
         (daysToExpiration r
            = getDaysToExpiration (clock (AtCall i)) (expiration (options ! j)) \<or>
          daysToExpiration r
            = getDaysToExpiration (clock (AtPut i)) (expiration (options ! j))))" for r
    using findCreditSpreads_route_subset policy_route by blast
  have b': "r \<in> set (findCreditSpreads_route clock options price targetDTE) \<Longrightarrow>
      (\<forall>j<length options. \<forall>i<length options.
          clock (AtFilter j) \<le> clock (AtCall i) \<and> clock (AtFilter j) \<le> clock (AtPut i)) \<Longrightarrow>
      of_int (daysToExpiration r) \<le> targetDTE + 2" for r
    using findCreditSpreads_route_subset policy_route_upper by blast
  have c: "rankedFrom (pairingStage clock options price targetDTE)
     (findCreditSpreads clock options price targetDTE)"
    unfolding findCreditSpreads_def
    by (rule rankedFrom_take_sort) (use ratio_not_NaN in blast)
  have d: "rankedFrom (pairingStage_route clock options price targetDTE)
     (findCreditSpreads_route clock options price targetDTE)"
    unfolding findCreditSpreads_route_def
    by (rule rankedFrom_take_sort) (use ratio_not_NaN in blast)
  from a b b' c d show ?thesis by blast
qed

text \<open>
  Where the claim as written fails. On \<open>lowRatioChain\<close> the basic route returns a
  spread with the ratio 9/41, which is not above 0.25. On \<open>driftChain\<close>, whose
  contracts are five days out at the readings of the filter and four days out a second
  later, it returns a spread that stores four days, below the window around the target
  of seven. On \<open>zeroLossChain\<close> the enhanced route returns a spread whose \<open>maxLoss\<close> is
  zero: its ratio is \<open>+Infinity\<close>.
\<close>

theorem ranker_policy_counterexample:
  "map creditReceived (findCreditSpreads_route tickingClock lowRatioChain 255 7) = [0.9] \<and>
   map maxLoss (findCreditSpreads_route tickingClock lowRatioChain 255 7) = [4.1] \<and>
   map riskRewardRatio (findCreditSpreads_route tickingClock lowRatioChain 255 7)
     = [Fin (9 / 41)] \<and>
   \<not> js_gt (Fin (9 / 41)) (Fin 0.25) \<and>
   map strike (callOptions tickingClock 7 255 driftChain) = [260, 265] \<and>
   map daysToExpiration (findCreditSpreads_route tickingClock driftChain 255 7) = [4] \<and>
   map maxLoss (findCreditSpreads tickingClock zeroLossChain 255 7) = [0] \<and>
   map riskRewardRatio (findCreditSpreads tickingClock zeroLossChain 255 7) = [PInf]"
proof -
  have 1: "map creditReceived (findCreditSpreads_route tickingClock lowRatioChain 255 7) = [0.9] \<and>
   map maxLoss (findCreditSpreads_route tickingClock lowRatioChain 255 7) = [4.1] \<and>
   map riskRewardRatio (findCreditSpreads_route tickingClock lowRatioChain 255 7)
     = [Fin (9 / 41)] \<and>
   \<not> js_gt (Fin (9 / 41)) (Fin 0.25)"
    by (simp add: findCreditSpreads_route_def lowRatioChain_def chain_eval)
  have 2: "map strike (callOptions tickingClock 7 255 driftChain) = [260, 265] \<and>
   map daysToExpiration (findCreditSpreads_route tickingClock driftChain 255 7) = [4]"
    by (simp add: findCreditSpreads_route_def driftChain_def pairingStage_route_def
        callOptions_def putOptions_def targetOptions_def contract_def inWindow_def callSide_def
        putSide_def js_gt_def js_sort_def Let_def days_drift_5 days_drift_4)
  have 3: "map maxLoss (findCreditSpreads tickingClock zeroLossChain 255 7) = [0] \<and>
   map riskRewardRatio (findCreditSpreads tickingClock zeroLossChain 255 7) = [PInf]"
    by (simp add: findCreditSpreads_def zeroLossChain_def chain_eval)
  from 1 2 3 show ?thesis by blast
qed

lemma tie_stage:
  "map shortStrike (pairingStage tickingClock tieChain 255 7)
     = [260, 265, 270, 275, 280, 285, 290, 295, 300, 305, 310] \<and>
   map riskRewardRatio (pairingStage tickingClock tieChain 255 7)
     = [Fin (3 / 7), Fin (2 / 3), Fin (3 / 7), Fin (2 / 3), Fin (3 / 7), Fin (2 / 3),
        Fin (3 / 7), Fin (2 / 3), Fin (3 / 7), Fin (2 / 3), Fin (3 / 7)]"
  by (simp add: tieChain_def chain_eval)

lemma tie_result:
  "map shortStrike (findCreditSpreads tickingClock tieChain 255 7)
     = [265, 275, 285, 295, 305, 260, 270, 280, 290, 300]"
  by (simp add: findCreditSpreads_def tieChain_def chain_eval byRiskReward_def js_sub_def)

lemma tie_route_result:
  "map shortStrike (findCreditSpreads_route tickingClock tieChain 255 7)
     = [265, 275, 285, 295, 305, 260, 270, 280, 290, 300] \<and>
   map daysToExpiration (findCreditSpreads_route tickingClock tieChain 255 7)
     = [7, 7, 7, 7, 7, 7, 7, 7, 7, 7]"
  by (simp add: findCreditSpreads_route_def tieChain_def chain_eval byRiskReward_def js_sub_def)

lemma tie_clock:
  "\<forall>j<length tieChain. \<forall>i<length tieChain.
     tickingClock (AtFilter j) \<le> tickingClock (AtCall i) \<and>
     tickingClock (AtFilter j) \<le> tickingClock (AtPut i)"
  by (simp add: tieChain_def)

text \<open>
  The theorem at a chain of twelve calls that gives eleven candidates, whose ratios
  are 3/7 and 2/3 in turn: both routes return the five candidates of ratio 2/3 and then
  the first five of ratio 3/7, each group in the order of the pairing stage, and drop
  the eleventh.
\<close>

theorem ranker_policy_witness:
  "map shortStrike (pairingStage tickingClock tieChain 255 7)
     = [260, 265, 270, 275, 280, 285, 290, 295, 300, 305, 310] \<and>
   map shortStrike (findCreditSpreads tickingClock tieChain 255 7)
     = [265, 275, 285, 295, 305, 260, 270, 280, 290, 300] \<and>
   map shortStrike (findCreditSpreads_route tickingClock tieChain 255 7)
     = [265, 275, 285, 295, 305, 260, 270, 280, 290, 300] \<and>
   rankedFrom (pairingStage tickingClock tieChain 255 7)
     (findCreditSpreads tickingClock tieChain 255 7) \<and>
   rankedFrom (pairingStage_route tickingClock tieChain 255 7)
     (findCreditSpreads_route tickingClock tieChain 255 7) \<and>
   0.15 < creditReceived (hd (findCreditSpreads tickingClock tieChain 255 7)) \<and>
   js_gt (js_div (Fin (maxProfit (hd (findCreditSpreads tickingClock tieChain 255 7))))
                 (Fin (maxLoss (hd (findCreditSpreads tickingClock tieChain 255 7))))) (Fin 0.25) \<and>
   5 \<le> daysToExpiration (hd (findCreditSpreads tickingClock tieChain 255 7)) \<and>
   daysToExpiration (hd (findCreditSpreads tickingClock tieChain 255 7)) \<le> 10 \<and>
   0.10 < creditReceived (hd (findCreditSpreads_route tickingClock tieChain 255 7)) \<and>
   js_gt (js_div (Fin (maxProfit (hd (findCreditSpreads_route tickingClock tieChain 255 7))))
                 (Fin (maxLoss (hd (findCreditSpreads_route tickingClock tieChain 255 7)))))
     (Fin 0.2) \<and>
   of_int (daysToExpiration (hd (findCreditSpreads_route tickingClock tieChain 255 7)))
     \<le> (7 + 2 :: real)"
proof -
  have m1: "hd (findCreditSpreads tickingClock tieChain 255 7)
              \<in> set (findCreditSpreads tickingClock tieChain 255 7)"
    using hd_in_set_map[OF tie_result] .
  have m2: "hd (findCreditSpreads_route tickingClock tieChain 255 7)
              \<in> set (findCreditSpreads_route tickingClock tieChain 255 7)"
    using hd_in_set_map[OF conjunct1[OF tie_route_result]] .
  note th = ranker_policy[of tickingClock tieChain 255 7]
  from th m1 have e: "0.15 < creditReceived (hd (findCreditSpreads tickingClock tieChain 255 7)) \<and>
   js_gt (js_div (Fin (maxProfit (hd (findCreditSpreads tickingClock tieChain 255 7))))
                 (Fin (maxLoss (hd (findCreditSpreads tickingClock tieChain 255 7))))) (Fin 0.25) \<and>
   5 \<le> daysToExpiration (hd (findCreditSpreads tickingClock tieChain 255 7)) \<and>
   daysToExpiration (hd (findCreditSpreads tickingClock tieChain 255 7)) \<le> 10"
    by blast
  from th m2 have r: "0.10 < creditReceived (hd (findCreditSpreads_route tickingClock tieChain 255 7)) \<and>
   js_gt (js_div (Fin (maxProfit (hd (findCreditSpreads_route tickingClock tieChain 255 7))))
                 (Fin (maxLoss (hd (findCreditSpreads_route tickingClock tieChain 255 7)))))
     (Fin 0.2)"
    by blast
  from th m2 tie_clock have u:
    "of_int (daysToExpiration (hd (findCreditSpreads_route tickingClock tieChain 255 7)))
       \<le> (7 + 2 :: real)"
    by blast
  from th have k: "rankedFrom (pairingStage tickingClock tieChain 255 7)
     (findCreditSpreads tickingClock tieChain 255 7) \<and>
   rankedFrom (pairingStage_route tickingClock tieChain 255 7)
     (findCreditSpreads_route tickingClock tieChain 255 7)"
    by blast
  from tie_stage tie_result tie_route_result e r u k show ?thesis by blast
qed

text \<open>
  Claim C5, as the code has it. Only contracts of the input whose days to expiration,
  at the reading the filter takes for them, lie in the window
  \<open>[target - 2, target + 2]\<close> reach the two loops, in the order of the input. The lists
  are not sorted: each loop pairs the contracts at neighbouring positions of its
  filtered list. Every call candidate has its long strike above its short strike, every
  put candidate below, a loop over \<open>n\<close> contracts pushes \<open>n - 1\<close> candidates at most, and
  the result holds nothing but candidates of the two loops.
\<close>

theorem pairing_in_input_order:
  "(\<forall>c \<in> set (callOptions clock targetDTE price options)
          \<union> set (putOptions clock targetDTE price options).
      c \<in> set options \<and>
      (\<exists>j<length options. options ! j = c \<and>
         targetDTE - 2 \<le> of_int (getDaysToExpiration (clock (AtFilter j)) (expiration c)) \<and>
         of_int (getDaysToExpiration (clock (AtFilter j)) (expiration c)) \<le> targetDTE + 2)) \<and>
   subseq (callOptions clock targetDTE price options) options \<and>
   subseq (putOptions clock targetDTE price options) options \<and>
   (\<forall>r \<in> set (callLoop clock 0 price (callOptions clock targetDTE price options)).
      spreadType r = Call \<and> shortStrike r < longStrike r \<and>
      (\<exists>i. legsAt (\<lambda>i. clock (AtCall i)) (callOptions clock targetDTE price options) i r)) \<and>
   (\<forall>r \<in> set (putLoop clock 0 price (putOptions clock targetDTE price options)).
      spreadType r = Put \<and> longStrike r < shortStrike r \<and>
      (\<exists>i. legsAt (\<lambda>i. clock (AtPut i)) (putOptions clock targetDTE price options) i r)) \<and>
   length (callLoop clock 0 price (callOptions clock targetDTE price options))
     \<le> length (callOptions clock targetDTE price options) - 1 \<and>
   length (putLoop clock 0 price (putOptions clock targetDTE price options))
     \<le> length (putOptions clock targetDTE price options) - 1 \<and>
   set (findCreditSpreads clock options price targetDTE)
     \<subseteq> set (callLoop clock 0 price (callOptions clock targetDTE price options))
       \<union> set (putLoop clock 0 price (putOptions clock targetDTE price options))"
proof -
  have a: "c \<in> set (callOptions clock targetDTE price options)
          \<union> set (putOptions clock targetDTE price options) \<Longrightarrow>
      c \<in> set options \<and>
      (\<exists>j<length options. options ! j = c \<and>
         targetDTE - 2 \<le> of_int (getDaysToExpiration (clock (AtFilter j)) (expiration c)) \<and>
         of_int (getDaysToExpiration (clock (AtFilter j)) (expiration c)) \<le> targetDTE + 2)" for c
    by (rule callOptions_window)
  have b: "r \<in> set (callLoop clock 0 price (callOptions clock targetDTE price options)) \<Longrightarrow>
      spreadType r = Call \<and> shortStrike r < longStrike r \<and>
      (\<exists>i. legsAt (\<lambda>i. clock (AtCall i)) (callOptions clock targetDTE price options) i r)" for r
    using callLoop_elem[of r clock 0 price "callOptions clock targetDTE price options"] by simp
  have c: "r \<in> set (putLoop clock 0 price (putOptions clock targetDTE price options)) \<Longrightarrow>
      spreadType r = Put \<and> longStrike r < shortStrike r \<and>
      (\<exists>i. legsAt (\<lambda>i. clock (AtPut i)) (putOptions clock targetDTE price options) i r)" for r
    using putLoop_elem[of r clock 0 price "putOptions clock targetDTE price options"] by simp
  have d: "set (findCreditSpreads clock options price targetDTE)
     \<subseteq> set (callLoop clock 0 price (callOptions clock targetDTE price options))
       \<union> set (putLoop clock 0 price (putOptions clock targetDTE price options))"
    using findCreditSpreads_subset[of clock options price targetDTE]
    by (simp add: pairingStage_def)
  from a b c d length_callLoop length_putLoop
    subseq_callOptions[of clock targetDTE price options] show ?thesis by blast
qed

text \<open>
  Where the claim as written fails. Of the calls listed at 260, 270 and 265 the engine
  returns the spread 260/270, and 260 and 270 are not neighbours among the sorted
  strikes.
\<close>

theorem pairing_counterexample:
  "map shortStrike (findCreditSpreads tickingClock unsortedChain 255 7) = [260] \<and>
   map longStrike (findCreditSpreads tickingClock unsortedChain 255 7) = [270] \<and>
   map strike (callOptions tickingClock 7 255 unsortedChain) = [260, 270, 265] \<and>
   sortedNeighbours (map strike (callOptions tickingClock 7 255 unsortedChain))
     = [(260, 265), (265, 270)] \<and>
   (260, 270) \<notin> set (sortedNeighbours (map strike (callOptions tickingClock 7 255 unsortedChain)))"
  by (simp add: findCreditSpreads_def unsortedChain_def chain_eval sortedNeighbours_def)

lemma unsorted_callOptions:
  "callOptions tickingClock 7 255 unsortedChain = unsortedChain"
  by (simp add: unsortedChain_def chain_eval)

lemma unsorted_callLoop:
  "map longStrike (callLoop tickingClock 0 255 unsortedChain) = [270]"
  by (simp add: unsortedChain_def chain_eval)

text \<open>
  The theorem at the chain out of strike order.
\<close>

theorem pairing_in_input_order_witness:
  "hd unsortedChain \<in> set (callOptions tickingClock 7 255 unsortedChain)
      \<union> set (putOptions tickingClock 7 255 unsortedChain) \<and>
   hd unsortedChain \<in> set unsortedChain \<and>
   (\<exists>j<length unsortedChain. unsortedChain ! j = hd unsortedChain \<and>
      7 - 2 \<le> (of_int (getDaysToExpiration (tickingClock (AtFilter j))
                  (expiration (hd unsortedChain))) :: real) \<and>
      (of_int (getDaysToExpiration (tickingClock (AtFilter j))
                  (expiration (hd unsortedChain))) :: real) \<le> 7 + 2) \<and>
   hd (callLoop tickingClock 0 255 unsortedChain)
     \<in> set (callLoop tickingClock 0 255 (callOptions tickingClock 7 255 unsortedChain)) \<and>
   spreadType (hd (callLoop tickingClock 0 255 unsortedChain)) = Call \<and>
   shortStrike (hd (callLoop tickingClock 0 255 unsortedChain))
     < longStrike (hd (callLoop tickingClock 0 255 unsortedChain)) \<and>
   length (callLoop tickingClock 0 255 (callOptions tickingClock 7 255 unsortedChain)) \<le> 2"
proof -
  have m0: "hd unsortedChain \<in> set (callOptions tickingClock 7 255 unsortedChain)
      \<union> set (putOptions tickingClock 7 255 unsortedChain)"
    by (simp add: unsorted_callOptions) (simp add: unsortedChain_def)
  have m1: "hd (callLoop tickingClock 0 255 unsortedChain)
     \<in> set (callLoop tickingClock 0 255 (callOptions tickingClock 7 255 unsortedChain))"
    using hd_in_set_map[OF unsorted_callLoop] by (simp add: unsorted_callOptions)
  have l: "length (callOptions tickingClock 7 255 unsortedChain) - 1 = 2"
    by (simp add: unsorted_callOptions) (simp add: unsortedChain_def)
  note th = pairing_in_input_order[of tickingClock 7 255 unsortedChain]
  from th m0 have a: "hd unsortedChain \<in> set unsortedChain \<and>
   (\<exists>j<length unsortedChain. unsortedChain ! j = hd unsortedChain \<and>
      7 - 2 \<le> (of_int (getDaysToExpiration (tickingClock (AtFilter j))
                  (expiration (hd unsortedChain))) :: real) \<and>
      (of_int (getDaysToExpiration (tickingClock (AtFilter j))
                  (expiration (hd unsortedChain))) :: real) \<le> 7 + 2)"
    by blast
  from th m1 have b: "spreadType (hd (callLoop tickingClock 0 255 unsortedChain)) = Call \<and>
   shortStrike (hd (callLoop tickingClock 0 255 unsortedChain))
     < longStrike (hd (callLoop tickingClock 0 255 unsortedChain))"
    by blast
  from th l have c:
    "length (callLoop tickingClock 0 255 (callOptions tickingClock 7 255 unsortedChain)) \<le> 2"
    by simp
  from m0 m1 a b c show ?thesis by blast
qed

text \<open>
  The end-to-end scenario of the specification: at the price 255 the two calls at 260
  and 265 give one bear call spread with the credit 1.10, the maximal loss 3.90, the
  breakeven 261.10 and the ratio 11/39, which is in the list returned.
\<close>

theorem end_to_end_scenario:
  "findCreditSpreads tickingClock exampleChain 255 7 =
     [\<lparr> spreadType = Call, shortStrike = 260, longStrike = 265,
        expirationDate = DateOfMs 604800000,
        creditReceived = 1.10, maxProfit = 1.10, maxLoss = 3.90, breakeven = 261.10,
        probOfProfit = calculateProbOfProfit 255 260 1.10 Call 0.3 7,
        riskRewardRatio = Fin (11 / 39), daysToExpiration = 7 \<rparr>]"
  by (simp add: findCreditSpreads_def exampleChain_def chain_eval)

section \<open>Proofs: the probability model\<close>

lemma js_clamp_cases:
  "js_min (js_max x (Fin 20)) (Fin 85) = NaN \<or>
   (\<exists>p. js_min (js_max x (Fin 20)) (Fin 85) = Fin p \<and> 20 \<le> p \<and> p \<le> 85)"
  by (cases x) auto

text \<open>
  Whatever the inputs, the value of \<open>calculateProbOfProfit\<close> is NaN or lies in
  \<open>[20, 85]\<close>.
\<close>

lemma probOfProfit_range_or_NaN:
  "calculateProbOfProfit cp ss cr ty iv dte = NaN \<or>
   (\<exists>p. calculateProbOfProfit cp ss cr ty iv dte = Fin p \<and> 20 \<le> p \<and> p \<le> 85)"
  unfolding calculateProbOfProfit_def Let_def by (rule js_clamp_cases)

text \<open>
  Claim C3 at a failing input. With no implied volatility and the current price on the
  breakeven, \<open>d\<close> is \<open>0 / 0\<close>: the value is NaN, which \<open>Math.max\<close> and \<open>Math.min\<close> hand
  on. \<open>findCreditSpreads\<close> reaches this input on a chain whose short call carries a
  stale moneyness flag.
\<close>

theorem clamp_misses_NaN:
  "calculateProbOfProfit 261.5 260 1.5 Call 0 7 = NaN \<and>
   map probOfProfit (findCreditSpreads tickingClock staleFlagChain 261.5 7) = [NaN]"
  by (simp add: findCreditSpreads_def staleFlagChain_def chain_eval calculateProbOfProfit_def js_sub_def)

lemma js_mul_minus2_assoc: "js_mul (js_mul (Fin (- 2)) d) d = js_mul (Fin (- 2)) (js_mul d d)"
  by (cases d) auto

lemma js_add_zero: "js_add x (Fin 0) = x"
  by (cases x) auto

lemma spec_clamp_range: "\<exists>v. spec_clamp p = Fin v \<and> 20 \<le> v \<and> v \<le> 85"
  by (cases p) (auto simp: spec_clamp_def js_gt_def js_ge_def)

lemma js_clamp_agrees:
  "js_min (js_max p (Fin 20)) (Fin 85) = spec_clamp p \<or>
   js_min (js_max p (Fin 20)) (Fin 85) = NaN"
  by (cases p) (auto simp: spec_clamp_def js_gt_def js_ge_def)

lemma code_clamps_spec_raw:
  "calculateProbOfProfit cp ss cr ty iv dte =
     js_min (js_max (spec_raw cp ss cr ty iv dte) (Fin 20)) (Fin 85)"
  by (cases ty)
    (simp_all add: calculateProbOfProfit_def spec_raw_def Let_def
      js_mul_minus2_assoc js_add_zero del: js_div.simps js_mul.simps js_add.simps js_min.simps js_max.simps)

lemma spec_raw_number:
  assumes "0 < cp" "0 < (case ty of Call \<Rightarrow> ss + cr | Put \<Rightarrow> ss - cr)" "iv \<noteq> 0" "0 < dte"
  shows "\<exists>x. spec_raw cp ss cr ty iv dte = Fin x"
proof -
  define be where "be = (case ty of Call \<Rightarrow> ss + cr | Put \<Rightarrow> ss - cr)"
  have be: "0 < be" using assms(2) by (simp add: be_def)
  define den where "den = iv * sqrt (dte / 365)"
  have den: "den \<noteq> 0" using assms(3,4) by (simp add: den_def)
  define d where "d = ln (cp / be) / den"
  have 1: "js_div (js_log (js_div (Fin cp) (Fin be)))
             (js_mul (Fin iv) (js_sqrt (Fin (dte / 365)))) = Fin d"
    using be assms(1,4) den by (simp add: d_def den_def)
  have e: "exp (- 2 * (d * d) / pi) \<le> 1"
    by (simp add: divide_le_0_iff mult_le_0_iff zero_le_mult_iff)
  then have 2: "js_sqrt (js_sub (Fin 1)
       (js_exp (js_div (js_mul (Fin (- 2)) (js_mul (Fin d) (Fin d))) (Fin pi))))
     = Fin (sqrt (1 - exp (- 2 * (d * d) / pi)))"
    by (simp add: js_sub_def)
  show ?thesis
    unfolding spec_raw_def Let_def be_def[symmetric] 1 2
    by (cases ty) (auto simp: js_sub_def)
qed

lemma js_clamp_number: "js_min (js_max (Fin x) (Fin 20)) (Fin 85) = spec_clamp (Fin x)"
  by (auto simp: spec_clamp_def js_gt_def js_ge_def)

text \<open>
  Claim C4 and the input at which it fails. \<open>calculateProbOfProfit\<close> computes the
  formula of the specification up to the clamp: the breakeven by side, the distance
  \<open>d\<close>, the approximated cumulative probability, the base probability by side, the
  time-decay bonus and the flat ten points for a spread out of the money (the source
  multiplies \<open>-2\<close> by \<open>d\<close> twice where the formula squares \<open>d\<close> first, and adds the flat
  bonus in two separate tests). The value of the specification lies in \<open>[20, 85]\<close> on
  every input; the source clamps with \<open>Math.min\<close> and \<open>Math.max\<close>, which hand NaN on, so
  that its value is that of the specification or NaN. It is that of the specification
  when the current price and the breakeven are positive, the short strike and the
  implied volatility are not zero and the days to expiration are positive: no zero
  divides there. For a put at the strike 1 with the
  credit 2 the breakeven is negative, the logarithm is NaN, and the value returned is
  NaN, not a number of the interval.
\<close>

theorem formula_clamp_misses_NaN:
  "(calculateProbOfProfit cp ss cr ty iv dte = spec_probOfProfit cp ss cr ty iv dte \<or>
    calculateProbOfProfit cp ss cr ty iv dte = NaN) \<and>
   (\<exists>v. spec_probOfProfit cp ss cr ty iv dte = Fin v \<and> 20 \<le> v \<and> v \<le> 85) \<and>
   (0 < cp \<and> ss \<noteq> 0 \<and> 0 < (case ty of Call \<Rightarrow> ss + cr | Put \<Rightarrow> ss - cr) \<and>
    iv \<noteq> 0 \<and> 0 < dte \<longrightarrow>
      calculateProbOfProfit cp ss cr ty iv dte = spec_probOfProfit cp ss cr ty iv dte) \<and>
   calculateProbOfProfit 255 1 2 Put 0.3 7 = NaN \<and>
   calculateProbOfProfit 255 1 2 Put 0.3 7 \<noteq> spec_probOfProfit 255 1 2 Put 0.3 7"
proof -
  have a: "calculateProbOfProfit cp ss cr ty iv dte = spec_probOfProfit cp ss cr ty iv dte \<or>
    calculateProbOfProfit cp ss cr ty iv dte = NaN"
    unfolding code_clamps_spec_raw spec_probOfProfit_def by (rule js_clamp_agrees)
  have b: "\<exists>v. spec_probOfProfit cp ss cr ty iv dte = Fin v \<and> 20 \<le> v \<and> v \<le> 85"
    unfolding spec_probOfProfit_def by (rule spec_clamp_range)
  have n: "calculateProbOfProfit cp ss cr ty iv dte = spec_probOfProfit cp ss cr ty iv dte"
    if "0 < cp" "0 < (case ty of Call \<Rightarrow> ss + cr | Put \<Rightarrow> ss - cr)" "iv \<noteq> 0" "0 < dte"
  proof -
    from spec_raw_number[OF that] obtain x where "spec_raw cp ss cr ty iv dte = Fin x" by blast
    then show ?thesis
      unfolding code_clamps_spec_raw spec_probOfProfit_def by (simp only: js_clamp_number)
  qed
  have c: "calculateProbOfProfit 255 1 2 Put 0.3 7 = NaN"
    by (simp add: calculateProbOfProfit_def js_sub_def js_gt_def)
  have "\<exists>v. spec_probOfProfit 255 1 2 Put 0.3 7 = Fin v"
    using spec_clamp_range[of "spec_raw 255 1 2 Put 0.3 7"]
    unfolding spec_probOfProfit_def by blast
  with c have d: "calculateProbOfProfit 255 1 2 Put 0.3 7 \<noteq> spec_probOfProfit 255 1 2 Put 0.3 7"
    by auto
  from a b n c d show ?thesis by blast
qed

text \<open>
  The theorem at the spread of the end-to-end scenario: the value returned there is
  the number of the specification.
\<close>

theorem formula_clamp_misses_NaN_witness:
  "(0 :: real) < 255 \<and> (260 :: real) \<noteq> 0 \<and> (0 :: real) < 260 + 1.1 \<and> (0.3 :: real) \<noteq> 0 \<and>
   (0 :: real) < 7 \<and>
   calculateProbOfProfit 255 260 1.1 Call 0.3 7 = spec_probOfProfit 255 260 1.1 Call 0.3 7 \<and>
   (\<exists>v. calculateProbOfProfit 255 260 1.1 Call 0.3 7 = Fin v \<and> 20 \<le> v \<and> v \<le> 85)"
proof -
  note th = formula_clamp_misses_NaN[of 255 260 "1.1" Call "0.3" 7]
  have h: "(0 :: real) < 255" "(0 :: real) < (case Call of Call \<Rightarrow> 260 + 1.1 | Put \<Rightarrow> 260 - 1.1)"
    "(0.3 :: real) \<noteq> 0" "(0 :: real) < 7" "(260 :: real) \<noteq> 0"
    by simp_all
  from th h have e:
    "calculateProbOfProfit 255 260 1.1 Call 0.3 7 = spec_probOfProfit 255 260 1.1 Call 0.3 7"
    by blast
  from th have "\<exists>v. spec_probOfProfit 255 260 1.1 Call 0.3 7 = Fin v \<and> 20 \<le> v \<and> v \<le> 85"
    by blast
  with e have r: "\<exists>v. calculateProbOfProfit 255 260 1.1 Call 0.3 7 = Fin v \<and> 20 \<le> v \<and> v \<le> 85"
    by simp
  from h e r show ?thesis by simp
qed

section \<open>Proofs: the TTL cache\<close>

lemma map_of_cleanupLoop:
  "map_of (cleanupLoop now entries cache) k =
     (if \<exists>item. (k, item) \<in> set entries \<and> expired now item then None else map_of cache k)"
proof (induction entries arbitrary: cache)
  case Nil
  then show ?case by simp
next
  case (Cons e entries)
  obtain key item where e: "e = (key, item)" by (cases e)
  show ?case unfolding e
    by (auto simp: Cons.IH delete_conv')
qed

lemma distinct_cleanupLoop:
  "distinct (map fst cache) \<Longrightarrow> distinct (map fst (cleanupLoop now entries cache))"
  by (induction entries arbitrary: cache) (auto simp: distinct_delete)

lemma map_of_cleanup:
  assumes "distinct (map fst cache)"
  shows "map_of (SimpleCache_cleanup now cache) k =
     (case map_of cache k of None \<Rightarrow> None
      | Some item \<Rightarrow> if expired now item then None else Some item)"
proof (cases "map_of cache k")
  case None
  then show ?thesis by (simp add: SimpleCache_cleanup_def map_of_cleanupLoop)
next
  case (Some item)
  have "(k, item') \<in> set cache \<longleftrightarrow> item' = item" for item'
    using assms Some by (metis map_of_eq_Some_iff option.inject)
  then show ?thesis using Some
    by (simp add: SimpleCache_cleanup_def map_of_cleanupLoop)
qed

lemma distinct_apply_call:
  "distinct (map fst cache) \<Longrightarrow> distinct (map fst (apply_call now call cache))"
  by (cases call)
    (auto simp: SimpleCache_set_def SimpleCache_get_def SimpleCache_cleanup_def
      SimpleCache_clear_def distinct_update distinct_delete distinct_cleanupLoop
      split: option.splits)

lemma expired_mono: "expired s item \<Longrightarrow> s \<le> s' \<Longrightarrow> expired s' item"
  by (simp add: expired_def)

lemma holds_apply_call:
  assumes "holds k item t' cache" "\<not> writesKey k call" "now \<le> t'"
  shows "holds k item t' (apply_call now call cache)"
proof -
  have d: "distinct (map fst (apply_call now call cache))"
    using assms(1) by (simp add: holds_def distinct_apply_call)
  have "map_of (apply_call now call cache) k = Some item \<or>
        (map_of (apply_call now call cache) k = None \<and> expired t' item)"
  proof (cases call)
    case (CallSet key d ttlSeconds)
    then show ?thesis using assms
      by (auto simp: holds_def SimpleCache_set_def update_conv')
  next
    case (CallGet key)
    then show ?thesis using assms
      by (auto simp: holds_def SimpleCache_get_def delete_conv' split: option.splits
          dest: expired_mono)
  next
    case CallCleanup
    then show ?thesis using assms
      by (auto simp: holds_def map_of_cleanup split: option.splits dest: expired_mono)
  next
    case CallSize
    then show ?thesis using assms by (auto simp: holds_def)
  next
    case CallClear
    then show ?thesis using assms by simp
  qed
  with d show ?thesis by (simp add: holds_def)
qed

lemma between_le: "between k t t' calls \<Longrightarrow> t \<le> t'"
proof (induction calls arbitrary: t)
  case Nil
  then show ?case by simp
next
  case (Cons c calls)
  obtain now call where c: "c = (now, call)" by (cases c)
  from Cons.prems have "t \<le> now" "between k now t' calls" by (simp_all add: c)
  with Cons.IH[of now] show ?case by simp
qed

lemma holds_cache_calls:
  assumes "holds k item t' cache" "between k t t' calls"
  shows "holds k item t' (cache_calls calls cache)"
  using assms
proof (induction calls arbitrary: cache t)
  case Nil
  then show ?case by simp
next
  case (Cons c calls)
  obtain now call where c: "c = (now, call)" by (cases c)
  from Cons.prems(2) have b: "t \<le> now" "\<not> writesKey k call" "between k now t' calls"
    by (simp_all add: c)
  from between_le[OF b(3)] have "now \<le> t'" .
  from holds_apply_call[OF Cons.prems(1) b(2) this]
  have "holds k item t' (apply_call now call cache)" .
  from Cons.IH[OF this b(3)] show ?case by (simp add: c)
qed

text \<open>
  Claim C6. The map has distinct keys, as every map the methods build has, and the
  clock does not run backwards. After \<open>set(k, v, ttl)\<close> at the reading \<open>t\<close> and any
  calls that do not write \<open>k\<close>, \<open>get(k)\<close> at a reading \<open>t'\<close> returns \<open>v\<close> when \<open>t' - t\<close> is at most the
  time to live (\<open>ttlSeconds\<close> times 1000 milliseconds) and leaves the item in place;
  otherwise it returns absent and the item is gone from the map. And from any map at
  all, whether or not \<open>cleanup\<close> has run on it, a \<open>get\<close> returns only the data of an
  item whose time to live has not elapsed.
\<close>

theorem cache_round_trip:
  fixes v :: "'v" and cache :: "'v SimpleCache"
  assumes "distinct (map fst cache)" and "between k t t' calls"
  shows "fst (SimpleCache_get t' k (cache_calls calls (SimpleCache_set t k v ttlSeconds cache)))
           = (if of_int (t' - t) \<le> ttlSeconds * 1000 then Some v else None) \<and>
         map_of (snd (SimpleCache_get t' k (cache_calls calls (SimpleCache_set t k v ttlSeconds cache)))) k
           = (if of_int (t' - t) \<le> ttlSeconds * 1000
              then Some \<lparr> data = v, timestamp = t, ttl = ttlSeconds * 1000 \<rparr> else None) \<and>
         (\<forall>now key (c :: 'v SimpleCache) x. fst (SimpleCache_get now key c) = Some x \<longrightarrow>
            (\<exists>item. map_of c key = Some item \<and> data item = x \<and>
                    of_int (now - timestamp item) \<le> ttl item))"
proof -
  let ?item = "\<lparr> data = v, timestamp = t, ttl = ttlSeconds * 1000 \<rparr>"
  let ?c = "cache_calls calls (SimpleCache_set t k v ttlSeconds cache)"
  have "holds k ?item t' (SimpleCache_set t k v ttlSeconds cache)"
    using assms(1) by (simp add: holds_def SimpleCache_set_def update_conv' distinct_update)
  from holds_cache_calls[OF this assms(2)] have h: "holds k ?item t' ?c" .
  have e: "expired t' ?item \<longleftrightarrow> \<not> of_int (t' - t) \<le> ttlSeconds * 1000"
    by (simp add: expired_def not_le)
  have 1: "fst (SimpleCache_get t' k ?c) = (if of_int (t' - t) \<le> ttlSeconds * 1000 then Some v else None)"
    using h e by (auto simp: holds_def SimpleCache_get_def)
  have 2: "map_of (snd (SimpleCache_get t' k ?c)) k
           = (if of_int (t' - t) \<le> ttlSeconds * 1000 then Some ?item else None)"
    using h e by (auto simp: holds_def SimpleCache_get_def delete_conv')
  have 3: "fst (SimpleCache_get now key c) = Some x \<longrightarrow>
            (\<exists>item. map_of c key = Some item \<and> data item = x \<and>
                    of_int (now - timestamp item) \<le> ttl item)" for now key and c :: "'v SimpleCache" and x
    by (auto simp: SimpleCache_get_def expired_def split: option.splits if_splits)
  from 1 2 3 show ?thesis by blast
qed

text \<open>
  The theorem for a payload stored for 30 seconds: read back 30000 milliseconds later,
  and one millisecond after that.
\<close>

theorem cache_round_trip_witness:
  "distinct (map fst ([] :: nat SimpleCache)) \<and>
   between ''tsla-options-data'' 1000 31000 quietCalls \<and>
   fst (SimpleCache_get 31000 ''tsla-options-data''
         (cache_calls quietCalls (SimpleCache_set 1000 ''tsla-options-data'' 7 30 []))) = Some 7 \<and>
   between ''tsla-options-data'' 1000 31001 quietCalls \<and>
   fst (SimpleCache_get 31001 ''tsla-options-data''
         (cache_calls quietCalls (SimpleCache_set 1000 ''tsla-options-data'' 7 30 []))) = None \<and>
   map_of (snd (SimpleCache_get 31001 ''tsla-options-data''
         (cache_calls quietCalls (SimpleCache_set 1000 ''tsla-options-data'' 7 30 []))))
      ''tsla-options-data'' = None \<and>
   (\<exists>item. map_of (cache_calls quietCalls (SimpleCache_set 1000 ''tsla-options-data'' 7 30 []))
        ''tsla-options-data'' = Some item \<and> data item = 7 \<and>
        of_int (31000 - timestamp item) \<le> ttl item)"
proof -
  have d: "distinct (map fst ([] :: nat SimpleCache))" by simp
  have b1: "between ''tsla-options-data'' 1000 31000 quietCalls"
    by (simp add: quietCalls_def)
  have b2: "between ''tsla-options-data'' 1000 31001 quietCalls"
    by (simp add: quietCalls_def)
  note r1 = cache_round_trip[OF d b1, of 7 30]
  note r2 = cache_round_trip[OF d b2, of 7 30]
  from r1 have g: "fst (SimpleCache_get 31000 ''tsla-options-data''
         (cache_calls quietCalls (SimpleCache_set 1000 ''tsla-options-data'' 7 30 []))) = Some 7"
    by simp
  from r1 g have f: "\<exists>item. map_of (cache_calls quietCalls (SimpleCache_set 1000 ''tsla-options-data'' 7 30 []))
        ''tsla-options-data'' = Some item \<and> data item = 7 \<and>
        of_int (31000 - timestamp item) \<le> ttl item"
    by blast
  from r2 have s: "fst (SimpleCache_get 31001 ''tsla-options-data''
         (cache_calls quietCalls (SimpleCache_set 1000 ''tsla-options-data'' 7 30 []))) = None"
    "map_of (snd (SimpleCache_get 31001 ''tsla-options-data''
         (cache_calls quietCalls (SimpleCache_set 1000 ''tsla-options-data'' 7 30 []))))
      ''tsla-options-data'' = None"
    by simp_all
  from d b1 b2 g f s show ?thesis by blast
qed

lemma delete_as_filter: "AList.delete key cache = filter (\<lambda>entry. fst entry \<noteq> key) cache"
  by (induction cache) (auto simp: AList.delete_eq)

lemma cleanupLoop_filter:
  "cleanupLoop now entries cache =
     filter (\<lambda>entry. \<not> (\<exists>item. (fst entry, item) \<in> set entries \<and> expired now item)) cache"
proof (induction entries arbitrary: cache)
  case Nil
  then show ?case by simp
next
  case (Cons e entries)
  obtain key item where e: "e = (key, item)" by (cases e)
  show ?case unfolding e
    by (auto simp: Cons.IH delete_as_filter intro: filter_cong)
qed

text \<open>
  A second \<open>cleanup\<close> at the same reading of the clock changes nothing.
\<close>

theorem cleanup_idempotent:
  "SimpleCache_cleanup now (SimpleCache_cleanup now cache) = SimpleCache_cleanup now cache"
proof -
  let ?P = "\<lambda>c entry. \<not> (\<exists>item. (fst entry, item) \<in> set c \<and> expired now item)"
  have 1: "SimpleCache_cleanup now cache = filter (?P cache) cache"
    by (simp add: SimpleCache_cleanup_def cleanupLoop_filter)
  have 2: "SimpleCache_cleanup now (filter (?P cache) cache)
             = filter (?P (filter (?P cache) cache)) (filter (?P cache) cache)"
    by (simp only: SimpleCache_cleanup_def cleanupLoop_filter)
  have "filter (?P (filter (?P cache) cache)) (filter (?P cache) cache) = filter (?P cache) cache"
    by (rule filter_True) auto
  with 1 2 show ?thesis by simp
qed

section \<open>Proofs: the broadcast hub\<close>

lemma broadcastLoop_delivered:
  "delivered (broadcastLoop run d cbs m) = delivered m @ map (\<lambda>cb. (cb, d)) cbs"
  by (induction cbs arbitrary: m) (auto simp: Let_def split: sum.splits)

lemma broadcastLoop_errors:
  "errorsLogged (broadcastLoop run d cbs m) =
     errorsLogged m + length (filter (\<lambda>cb. isl (run cb d)) cbs)"
  by (induction cbs arbitrary: m) (auto simp: Let_def split: sum.splits)

lemma broadcastLoop_frame:
  "subscribers (broadcastLoop run d cbs m) = subscribers m \<and>
   fetches (broadcastLoop run d cbs m) = fetches m \<and>
   intervals (broadcastLoop run d cbs m) = intervals m \<and>
   ws (broadcastLoop run d cbs m) = ws m"
  by (induction cbs arbitrary: m) (auto simp: Let_def split: sum.splits)

text \<open>
  Claim C10. A broadcast calls every callback that is subscribed to the topic when the
  broadcast starts, in order, with the value, whatever the callbacks do: those that
  throw are counted among the logged errors, stay subscribed, and the callbacks after
  them are called all the same.
\<close>

theorem broadcast_reaches_all:
  "delivered (broadcast run type d m) = delivered m @ map (\<lambda>cb. (cb, d)) (subscribers m type) \<and>
   subscribers (broadcast run type d m) = subscribers m \<and>
   errorsLogged (broadcast run type d m) =
     errorsLogged m + length (filter (\<lambda>cb. isl (run cb d)) (subscribers m type))"
  by (simp add: broadcast_def broadcastLoop_delivered broadcastLoop_errors broadcastLoop_frame)

lemma firstSubscriber_eq:
  "firstSubscriber =
     \<lparr> ws = Some [0, 1, 2], reconnectAttempts = 0,
       subscribers = (\<lambda>type. [])(Price := [1]), isConnecting = False,
       intervals = [(0, Price, 5000), (1, Options, 30000), (2, News, 120000)],
       nextInterval = 3, fetches = [], delivered = [], errorsLogged = 0 \<rparr>"
  by (simp add: firstSubscriber_def subscribe_def newManager_def Let_def setAdd_def
      getTotalSubscribers_def connect_def simulateWebSocket_def setInterval_def)

text \<open>
  The theorem for three subscribers of which the second throws.
\<close>

theorem broadcast_reaches_all_witness:
  "delivered (broadcast secondThrows Price 250
      (subscribe Price 3 (subscribe Price 2 firstSubscriber))) = [(1, 250), (2, 250), (3, 250)] \<and>
   subscribers (broadcast secondThrows Price 250
      (subscribe Price 3 (subscribe Price 2 firstSubscriber))) Price = [1, 2, 3] \<and>
   errorsLogged (broadcast secondThrows Price 250
      (subscribe Price 3 (subscribe Price 2 firstSubscriber))) = 1"
proof -
  have s: "subscribers (subscribe Price 3 (subscribe Price 2 firstSubscriber)) Price = [1, 2, 3]"
    "delivered (subscribe Price 3 (subscribe Price 2 firstSubscriber)) = []"
    "errorsLogged (subscribe Price 3 (subscribe Price 2 firstSubscriber)) = 0"
    by (simp_all add: firstSubscriber_eq subscribe_def Let_def setAdd_def getTotalSubscribers_def)
  from broadcast_reaches_all[of secondThrows Price 250 "subscribe Price 3 (subscribe Price 2 firstSubscriber)"] s
  show ?thesis by (simp add: secondThrows_def)
qed















lemma ws_fold_clear: "ws (fold clearInterval ids m) = ws m"
  by (induction ids arbitrary: m) (auto simp: clearInterval_def)











section \<open>Proofs: quote lookup\<close>

text \<open>
  Claim C9, as the code has it. \<open>getCurrentPrice\<close> requests the configured providers in
  the order of priority and returns the first answer: the value of the first provider
  whose value is truthy (for Alpha Vantage, that value through \<open>parseFloat\<close>), whether
  or not it is a positive number. When no configured provider answers, because it
  throws or its value is falsy, the result is 250. The result is never an exception.
\<close>

theorem price_fallthrough:
  "getCurrentPrice parseFloat env =
     Inr (firstAnswer (answer parseFloat env) (configured env) [])"
  by (simp add: getCurrentPrice_def configured_def split: sum.splits option.splits)

text \<open>
  Where the claim as written fails. A negative price from Yahoo is returned as it is;
  with Yahoo failing, the quote \<open>'0.0000'\<close> of Alpha Vantage is truthy and the result is
  0, though a third provider had a positive price.
\<close>

theorem price_counterexample:
  "getCurrentPrice exampleParseFloat negativeQuote = Inr (JNumber (Fin (- 1)), [Yahoo]) \<and>
   getCurrentPrice exampleParseFloat zeroQuote = Inr (JNumber (Fin 0), [Yahoo, AlphaVantage])"
  by (simp add: getCurrentPrice_def negativeQuote_def zeroQuote_def exampleParseFloat_def)

text \<open>
  The theorem where every provider fails, and where the second one answers.
\<close>

theorem price_fallthrough_witness:
  "getCurrentPrice exampleParseFloat allFail = Inr (JNumber (Fin 250), [Yahoo, AlphaVantage, FMP]) \<and>
   getCurrentPrice exampleParseFloat zeroQuote = Inr (JNumber (Fin 0), [Yahoo, AlphaVantage])"
  using price_fallthrough[of exampleParseFloat allFail] price_fallthrough[of exampleParseFloat zeroQuote]
  by (simp add: configured_def allFail_def zeroQuote_def exampleParseFloat_def)

section \<open>Proofs: the options handlers\<close>

lemma noChain_extract: "noChain (Inr od) \<Longrightarrow> isl (extractOptions od)"
  by (induction od rule: extractOptions.induct) simp_all

lemma findCreditSpreads_Nil:
  "findCreditSpreads clock [] price targetDTE = [] \<and>
   findCreditSpreads_route clock [] price targetDTE = []"
  by (simp add: findCreditSpreads_def findCreditSpreads_route_def pairingStage_def
      pairingStage_route_def callOptions_def putOptions_def targetOptions_def js_sort_def)

lemma extractOptions_no_contracts:
  assumes "calls = None \<or> calls = Some []" "puts = None \<or> puts = Some []"
  shows "extractOptions (Some (OptionsData (Some (OptionChain
           (Some (ResultEntry (Some (OptionsEntry calls puts # others)) # rest)))))) = Inr []"
  using assms by auto

text \<open>
  Claim C8, as the code has it. Both handlers answer every request with a response
  whose \<open>success\<close> is true, and throw nothing. When the cache has no fresh payload and
  the lookup gives no chain, the response is the static fallback, with its two
  recommendations, and nothing is written to the cache; the basic route answers in the
  same way when its request for the price throws. When the first result of the payload
  has an entry of options whose \<open>calls\<close> and \<open>puts\<close> are missing or empty, the response
  has an empty list of recommendations, and the handler writes it to the cache with a
  time to live of 30 seconds; for the basic route this is the case when its request
  for the price has not thrown.
\<close>

theorem handler_fallback:
  "(\<exists>resp cache'. GET now later clock price chainLookup cache = Inr (resp, cache')
       \<and> success resp) \<and>
   (\<exists>resp cache'. GET_route now later clock priceLookup chainLookup cache = Inr (resp, cache')
       \<and> success resp) \<and>
   (fst (SimpleCache_get now ''tsla-options-data'' cache) = None \<and> noChain chainLookup \<longrightarrow>
      GET now later clock price chainLookup cache =
        Inr (mockResponse later, snd (SimpleCache_get now ''tsla-options-data'' cache)) \<and>
      GET_route now later clock priceLookup chainLookup cache =
        Inr (mockResponse later, snd (SimpleCache_get now ''tsla-options-data'' cache)) \<and>
      success (mockResponse later) \<and>
      length (recommendations (payload (mockResponse later))) = 2) \<and>
   (fst (SimpleCache_get now ''tsla-options-data'' cache) = None \<and> priceLookup = Inl err \<longrightarrow>
      GET_route now later clock priceLookup chainLookup cache =
        Inr (mockResponse later, snd (SimpleCache_get now ''tsla-options-data'' cache))) \<and>
   (fst (SimpleCache_get now ''tsla-options-data'' cache) = None \<and>
    chainLookup = Inr (Some (OptionsData (Some (OptionChain
       (Some (ResultEntry (Some (OptionsEntry calls puts # others)) # rest)))))) \<and>
    (calls = None \<or> calls = Some []) \<and> (puts = None \<or> puts = Some []) \<longrightarrow>
      GET now later clock price chainLookup cache =
        Inr (\<lparr> success = True,
               payload = \<lparr> currentPrice = price, lastUpdate = later, recommendations = [] \<rparr>,
               cached = False \<rparr>,
             SimpleCache_set later ''tsla-options-data''
               \<lparr> currentPrice = price, lastUpdate = later, recommendations = [] \<rparr> 30
               (snd (SimpleCache_get now ''tsla-options-data'' cache))) \<and>
      (priceLookup = Inr quote \<longrightarrow>
         GET_route now later clock priceLookup chainLookup cache =
           Inr (\<lparr> success = True,
                  payload = \<lparr> currentPrice = (case quote of Some p \<Rightarrow> p | None \<Rightarrow> 250),
                              lastUpdate = later, recommendations = [] \<rparr>,
                  cached = False \<rparr>,
                SimpleCache_set later ''tsla-options-data''
                  \<lparr> currentPrice = (case quote of Some p \<Rightarrow> p | None \<Rightarrow> 250),
                    lastUpdate = later, recommendations = [] \<rparr> 30
                  (snd (SimpleCache_get now ''tsla-options-data'' cache)))))"
proof -
  obtain cd c1 where g: "SimpleCache_get now ''tsla-options-data'' cache = (cd, c1)"
    by (cases "SimpleCache_get now ''tsla-options-data'' cache")
  have a: "\<exists>resp cache'. GET now later clock price chainLookup cache = Inr (resp, cache')
       \<and> success resp"
    by (auto simp: GET_def g mockResponse_def split: option.splits sum.splits)
  have b: "\<exists>resp cache'. GET_route now later clock priceLookup chainLookup cache
       = Inr (resp, cache') \<and> success resp"
    by (auto simp: GET_route_def g mockResponse_def Let_def split: option.splits sum.splits)
  have c: "GET now later clock price chainLookup cache = Inr (mockResponse later, c1) \<and>
      GET_route now later clock priceLookup chainLookup cache = Inr (mockResponse later, c1) \<and>
      success (mockResponse later) \<and>
      length (recommendations (payload (mockResponse later))) = 2"
    if h: "cd = None" "noChain chainLookup"
  proof (cases chainLookup)
    case (Inl e)
    then show ?thesis using h
      by (auto simp: GET_def GET_route_def g mockResponse_def mockRecommendations_def Let_def
          split: sum.splits)
  next
    case (Inr od)
    with h have "isl (extractOptions od)" using noChain_extract by blast
    then obtain e where "extractOptions od = Inl e" by (cases "extractOptions od") auto
    then show ?thesis using h Inr
      by (auto simp: GET_def GET_route_def g mockResponse_def mockRecommendations_def Let_def
          split: sum.splits)
  qed
  have d: "GET_route now later clock priceLookup chainLookup cache = Inr (mockResponse later, c1)"
    if h: "cd = None" "priceLookup = Inl err"
    using h by (simp add: GET_route_def g)
  have e: "GET now later clock price chainLookup cache =
        Inr (\<lparr> success = True,
               payload = \<lparr> currentPrice = price, lastUpdate = later, recommendations = [] \<rparr>,
               cached = False \<rparr>,
             SimpleCache_set later ''tsla-options-data''
               \<lparr> currentPrice = price, lastUpdate = later, recommendations = [] \<rparr> 30 c1) \<and>
      (priceLookup = Inr quote \<longrightarrow>
         GET_route now later clock priceLookup chainLookup cache =
           Inr (\<lparr> success = True,
                  payload = \<lparr> currentPrice = (case quote of Some p \<Rightarrow> p | None \<Rightarrow> 250),
                              lastUpdate = later, recommendations = [] \<rparr>,
                  cached = False \<rparr>,
                SimpleCache_set later ''tsla-options-data''
                  \<lparr> currentPrice = (case quote of Some p \<Rightarrow> p | None \<Rightarrow> 250),
                    lastUpdate = later, recommendations = [] \<rparr> 30 c1))"
    if h: "cd = None"
      "chainLookup = Inr (Some (OptionsData (Some (OptionChain
         (Some (ResultEntry (Some (OptionsEntry calls puts # others)) # rest))))))"
      "calls = None \<or> calls = Some []" "puts = None \<or> puts = Some []"
  proof -
    note x = extractOptions_no_contracts[OF h(3) h(4), of others rest]
    show ?thesis
      using h(1)
      by (simp add: GET_def GET_route_def g h(2) x findCreditSpreads_Nil Let_def
          del: extractOptions.simps)
  qed
  from a b c d e g show ?thesis by simp
qed

text \<open>
  Where the claim as written fails. A payload whose entry of options holds no contract
  gives a response with an empty list of recommendations, and the handler caches it.
\<close>

theorem handler_counterexample:
  "GET 0 1 tickingClock 250 emptyEntryPayload [] =
     Inr (\<lparr> success = True,
            payload = \<lparr> currentPrice = 250, lastUpdate = 1, recommendations = [] \<rparr>,
            cached = False \<rparr>,
          [(''tsla-options-data'',
            \<lparr> data = \<lparr> currentPrice = 250, lastUpdate = 1, recommendations = [] \<rparr>,
              timestamp = 1, ttl = 30000 \<rparr>)])"
  by (simp add: GET_def emptyEntryPayload_def SimpleCache_get_def SimpleCache_set_def
      findCreditSpreads_Nil)

text \<open>
  The theorem on an empty cache: for a payload with an empty \<open>result\<close>, for a lookup
  that throws, for a request for the price that throws, and for the payloads whose
  entry of options has empty arrays or none.
\<close>

theorem handler_fallback_witness:
  "fst (SimpleCache_get 0 ''tsla-options-data'' ([] :: response_data SimpleCache)) = None \<and>
   noChain emptyResultPayload \<and>
   GET 0 1 tickingClock 250 emptyResultPayload [] = Inr (mockResponse 1, []) \<and>
   GET_route 0 1 tickingClock (Inr None) emptyResultPayload [] = Inr (mockResponse 1, []) \<and>
   noChain (Inl (Error ''fetch failed'')) \<and>
   GET 0 1 tickingClock 250 (Inl (Error ''fetch failed'')) [] = Inr (mockResponse 1, []) \<and>
   length (recommendations (payload (mockResponse 1))) = 2 \<and>
   GET_route 0 1 tickingClock (Inl (Error ''fetch failed'')) emptyEntryPayload []
     = Inr (mockResponse 1, []) \<and>
   GET 0 1 tickingClock 250 emptyEntryPayload [] =
     Inr (\<lparr> success = True,
            payload = \<lparr> currentPrice = 250, lastUpdate = 1, recommendations = [] \<rparr>,
            cached = False \<rparr>,
          SimpleCache_set 1 ''tsla-options-data''
            \<lparr> currentPrice = 250, lastUpdate = 1, recommendations = [] \<rparr> 30 []) \<and>
   GET_route 0 1 tickingClock (Inr (Some 255)) missingListsPayload [] =
     Inr (\<lparr> success = True,
            payload = \<lparr> currentPrice = 255, lastUpdate = 1, recommendations = [] \<rparr>,
            cached = False \<rparr>,
          SimpleCache_set 1 ''tsla-options-data''
            \<lparr> currentPrice = 255, lastUpdate = 1, recommendations = [] \<rparr> 30 [])"
proof -
  have m: "fst (SimpleCache_get 0 ''tsla-options-data'' ([] :: response_data SimpleCache)) = None"
    "snd (SimpleCache_get 0 ''tsla-options-data'' ([] :: response_data SimpleCache)) = []"
    by (simp_all add: SimpleCache_get_def)
  have n: "noChain emptyResultPayload" "noChain (Inl (Error ''fetch failed''))"
    by (simp_all add: emptyResultPayload_def)
  note t1 = handler_fallback[where now = 0 and later = 1 and clock = tickingClock
      and price = 250 and chainLookup = emptyResultPayload and cache = "[]"
      and priceLookup = "Inr None" and err = TypeError and quote = None
      and calls = None and puts = None and others = "[]" and rest = "[]"]
  note t2 = handler_fallback[where now = 0 and later = 1 and clock = tickingClock
      and price = 250 and chainLookup = "Inl (Error ''fetch failed'')" and cache = "[]"
      and priceLookup = "Inr None" and err = TypeError and quote = None
      and calls = None and puts = None and others = "[]" and rest = "[]"]
  note t3 = handler_fallback[where now = 0 and later = 1 and clock = tickingClock
      and price = 250 and chainLookup = emptyEntryPayload and cache = "[]"
      and priceLookup = "Inl (Error ''fetch failed'')" and err = "Error ''fetch failed''"
      and quote = None and calls = "Some []" and puts = "Some []" and others = "[]"
      and rest = "[]"]
  note t4 = handler_fallback[where now = 0 and later = 1 and clock = tickingClock
      and price = 250 and chainLookup = missingListsPayload and cache = "[]"
      and priceLookup = "Inr (Some 255)" and err = TypeError and quote = "Some 255"
      and calls = None and puts = None and others = "[]" and rest = "[]"]
  from t1 t2 m n have g1:
    "GET 0 1 tickingClock 250 emptyResultPayload [] = Inr (mockResponse 1, []) \<and>
     GET_route 0 1 tickingClock (Inr None) emptyResultPayload [] = Inr (mockResponse 1, []) \<and>
     GET 0 1 tickingClock 250 (Inl (Error ''fetch failed'')) [] = Inr (mockResponse 1, []) \<and>
     length (recommendations (payload (mockResponse 1))) = 2"
    by simp
  from t3 m have g2:
    "GET_route 0 1 tickingClock (Inl (Error ''fetch failed'')) emptyEntryPayload []
       = Inr (mockResponse 1, []) \<and>
     GET 0 1 tickingClock 250 emptyEntryPayload [] =
       Inr (\<lparr> success = True,
              payload = \<lparr> currentPrice = 250, lastUpdate = 1, recommendations = [] \<rparr>,
              cached = False \<rparr>,
            SimpleCache_set 1 ''tsla-options-data''
              \<lparr> currentPrice = 250, lastUpdate = 1, recommendations = [] \<rparr> 30 [])"
    by (simp add: emptyEntryPayload_def)
  from t4 m have g3:
    "GET_route 0 1 tickingClock (Inr (Some 255)) missingListsPayload [] =
       Inr (\<lparr> success = True,
              payload = \<lparr> currentPrice = 255, lastUpdate = 1, recommendations = [] \<rparr>,
              cached = False \<rparr>,
            SimpleCache_set 1 ''tsla-options-data''
              \<lparr> currentPrice = 255, lastUpdate = 1, recommendations = [] \<rparr> 30 [])"
    by (simp add: missingListsPayload_def)
  from m n g1 g2 g3 show ?thesis by blast
qed

end
